theory Spec2Isabelle
  imports Complex_Main "HOL-Library.Finite_Map"
begin

section \<open>DropSync: the sync engine of \<^verbatim>\<open>sync_engine.py\<close>\<close>

text \<open>
  The engine (class \<^verbatim>\<open>EbaySyncEngine\<close>) downloads a supplier feed, fetches the seller's
  listings page by page, computes the quantity corrections and sends them in batches.
  Everything the engine reads from outside (the HTTP responses, the rows that
  \<^verbatim>\<open>csv.DictReader\<close> yields, the parsed XML, and Python's own \<^verbatim>\<open>float\<close> and
  \<^verbatim>\<open>int\<close> on strings) is collected in a record \<open>env\<close> that every operation takes.
  A string is a list of characters with code points 0 to 255, a \<open>char\<close> standing for the
  Python character of the same code point. The wall-clock field \<^verbatim>\<open>duration_seconds\<close> of
  the result and the log lines are not modelled.
\<close>

subsection \<open>Exceptions\<close>

text \<open>
  Every exception the engine can meet is an instance of Python's \<^verbatim>\<open>Exception\<close>:
  \<^item> \<open>RequestError\<close>: \<^verbatim>\<open>requests.get\<close>, \<^verbatim>\<open>requests.post\<close> or \<^verbatim>\<open>raise_for_status\<close> failed;
  \<^item> \<open>XMLParseError\<close>: \<^verbatim>\<open>ET.fromstring\<close> rejected the response body;
  \<^item> \<open>GetSellerListFailed msgs\<close>: the \<^verbatim>\<open>RuntimeError\<close> raised at line 182, with the list
    \<^verbatim>\<open>msgs\<close> that its message prints;
  \<^item> the builtin errors raised by \<^verbatim>\<open>.strip()\<close> on \<^verbatim>\<open>None\<close>, by \<^verbatim>\<open>int\<close> and by \<^verbatim>\<open>float\<close>.
\<close>

datatype exn =
    RequestError string
  | XMLParseError string
  | GetSellerListFailed "string list"
  | AttributeError
  | ValueError
  | TypeError
  | OverflowError

subsection \<open>Python strings\<close>

text \<open>
  The characters up to code point 255 for which \<^verbatim>\<open>str.isspace\<close> holds: the ASCII blanks
  and separators, the next-line character U+0085 and the no-break space U+00A0.
  \<^verbatim>\<open>str.strip()\<close> removes them at both ends.
\<close>

definition is_space :: "char \<Rightarrow> bool" where
  "is_space c = (c \<in> set [CHR 0x20, CHR 0x09, CHR 0x0A, CHR 0x0B, CHR 0x0C, CHR 0x0D,
                           CHR 0x1C, CHR 0x1D, CHR 0x1E, CHR 0x1F, CHR 0x85, CHR 0xA0])"

definition strip :: "string \<Rightarrow> string" where
  "strip s = rev (dropWhile is_space (rev (dropWhile is_space s)))"

text \<open>
  \<^verbatim>\<open>str.lower()\<close> up to code point 255: the letters \<^verbatim>\<open>A\<close> to \<^verbatim>\<open>Z\<close> and the letters
  U+00C0 to U+00DE, the multiplication sign U+00D7 left as it is.
\<close>

definition lower_char :: "char \<Rightarrow> char" where
  "lower_char c =
     (let n = (of_char c :: nat)
      in if (65 \<le> n \<and> n \<le> 90) \<or> (192 \<le> n \<and> n \<le> 222 \<and> n \<noteq> 215)
         then char_of (n + 32) else c)"

definition lower :: "string \<Rightarrow> string" where
  "lower s = map lower_char s"

subsection \<open>Python floats\<close>

text \<open>
  A Python float is a finite value (a rational number), an infinity or a NaN.
  \<^verbatim>\<open>int(x)\<close> truncates a finite \<^verbatim>\<open>x\<close> towards zero, raises \<^verbatim>\<open>OverflowError\<close> on an
  infinity and \<^verbatim>\<open>ValueError\<close> on a NaN.
\<close>

datatype pyfloat = Finite rat | PosInf | NegInf | NaN

definition trunc :: "rat \<Rightarrow> int" where
  "trunc r = (if 0 \<le> r then \<lfloor>r\<rfloor> else \<lceil>r\<rceil>)"

fun int_of_float :: "pyfloat \<Rightarrow> exn + int" where
  "int_of_float (Finite r) = Inr (trunc r)"
| "int_of_float PosInf = Inl OverflowError"
| "int_of_float NegInf = Inl OverflowError"
| "int_of_float NaN = Inl ValueError"

subsection \<open>Data\<close>

text \<open>
  A row of \<^verbatim>\<open>csv.DictReader\<close>: a dict from column names to cells. A cell is a string, or
  \<^verbatim>\<open>None\<close> (here \<open>None\<close>) when the row is shorter than the header.
\<close>

type_synonym cell = "string option"
type_synonym row = "string \<rightharpoonup> cell"

text \<open>The stock dict \<^verbatim>\<open>{SKU: quantity}\<close>.\<close>

type_synonym stock = "string \<rightharpoonup> int"

text \<open>
  The dicts appended at lines 203 to 207 and at lines 310 to 315. The keys \<^verbatim>\<open>item_id\<close>
  and \<^verbatim>\<open>sku\<close> of the second dict are the fields \<open>upd_item_id\<close> and \<open>upd_sku\<close>.
\<close>

record listing =
  item_id :: string
  sku :: string
  current_qty :: int

record pending_update =
  upd_item_id :: string
  upd_sku :: string
  old_qty :: int
  new_qty :: int

text \<open>
  What \<^verbatim>\<open>find\<close> returns: no element, or an element with its \<^verbatim>\<open>.text\<close> (a string or
  \<^verbatim>\<open>None\<close>).
\<close>

datatype xml_elem = NotFound | Element "string option"

text \<open>
  The parsed body of a \<^verbatim>\<open>GetSellerList\<close> response, as the code reads it. A string field
  is what \<^verbatim>\<open>findtext(path, "")\<close> returns: of an \<^verbatim>\<open>Errors\<close> element its \<^verbatim>\<open>ErrorCode\<close>,
  \<^verbatim>\<open>LongMessage\<close> and \<^verbatim>\<open>ShortMessage\<close>; of an \<^verbatim>\<open>Item\<close> element its \<^verbatim>\<open>ItemID\<close>,
  \<^verbatim>\<open>SKU\<close> and \<^verbatim>\<open>SellingStatus/ListingStatus\<close>, with the elements \<^verbatim>\<open>Quantity\<close> and
  \<^verbatim>\<open>SellingStatus/QuantitySold\<close>; of the root its \<^verbatim>\<open>Ack\<close>. \<open>pagination_result\<close> is
  \<open>None\<close> without a \<^verbatim>\<open>PaginationResult\<close> element, and otherwise holds what \<^verbatim>\<open>find\<close>
  returns for \<^verbatim>\<open>TotalNumberOfPages\<close> in it; \<open>has_more_items\<close> is what \<^verbatim>\<open>find\<close> returns
  for \<^verbatim>\<open>HasMoreItems\<close>.
\<close>

record error_entry =
  error_code :: string
  long_message :: string
  short_message :: string

record item_entry =
  item_id_text :: string
  sku_text :: string
  listing_status :: string
  quantity_el :: xml_elem
  quantity_sold_el :: xml_elem

record page_response =
  ack :: string
  errors :: "error_entry list"
  item_array :: "item_entry list"
  pagination_result :: "xml_elem option"
  has_more_items :: xml_elem

text \<open>
  The parsed body of a \<^verbatim>\<open>ReviseInventoryStatus\<close> response: its \<^verbatim>\<open>Ack\<close> and the number
  of its \<^verbatim>\<open>InventoryStatus\<close> elements.
\<close>

record revise_response =
  revise_ack :: string
  inventory_status :: nat

text \<open>
  The world outside the engine.
  \<^item> \<open>feed_rows\<close>: the outcome of the feed download (lines 48, 49) and the rows that
    \<^verbatim>\<open>csv.DictReader\<close> yields from its text;
  \<^item> \<open>py_float\<close>, \<open>py_int\<close>: Python's \<^verbatim>\<open>float\<close> and \<^verbatim>\<open>int\<close> on a string
    (\<open>None\<close>: \<^verbatim>\<open>ValueError\<close>);
  \<^item> \<open>seller_list\<close>: the outcome of the request for a page (lines 162 to 171): an
    exception of the request or of the XML parser, or the parsed body;
  \<^item> \<open>revise\<close>: the outcome of the \<open>k\<close>-th update request (lines 265 to 274), \<open>k\<close> counted
    from 0, for the batch sent.
\<close>

record env =
  feed_rows :: "exn + row list"
  py_float :: "string \<Rightarrow> pyfloat option"
  py_int :: "string \<Rightarrow> int option"
  seller_list :: "int \<Rightarrow> exn + page_response"
  revise :: "nat \<Rightarrow> pending_update list \<Rightarrow> exn + revise_response"

subsection \<open>\<^verbatim>\<open>download_supplier_stock\<close>\<close>

text \<open>\<^verbatim>\<open>row.get(key, default)\<close>.\<close>

definition row_get :: "row \<Rightarrow> string \<Rightarrow> string \<Rightarrow> cell" where
  "row_get r k d = (case r k of None \<Rightarrow> Some d | Some c \<Rightarrow> c)"

text \<open>\<^verbatim>\<open>cell.strip()\<close>: \<^verbatim>\<open>None\<close> has no \<^verbatim>\<open>strip\<close>.\<close>

definition cell_strip :: "cell \<Rightarrow> exn + string" where
  "cell_strip c = (case c of None \<Rightarrow> Inl AttributeError | Some s \<Rightarrow> Inr (strip s))"

text \<open>Lines 64 to 67 and 105 to 108: \<^verbatim>\<open>int(float(qty_raw))\<close>, 0 on \<^verbatim>\<open>ValueError\<close>.\<close>

definition int_float_or_zero :: "env \<Rightarrow> string \<Rightarrow> exn + int" where
  "int_float_or_zero e s =
     (case py_float e s of
        None \<Rightarrow> Inr 0
      | Some x \<Rightarrow>
          (case int_of_float x of
             Inl ValueError \<Rightarrow> Inr 0
           | Inl err \<Rightarrow> Inl err
           | Inr n \<Rightarrow> Inr n))"

text \<open>Lines 85 to 91: \<^verbatim>\<open>int(qty_raw)\<close>, and the token set on \<^verbatim>\<open>ValueError\<close>.\<close>

definition int_or_token :: "env \<Rightarrow> string \<Rightarrow> int" where
  "int_or_token e s =
     (case py_int e s of
        Some n \<Rightarrow> n
      | None \<Rightarrow> (if lower s \<in> set [''yes'', ''true'', ''1'', ''available''] then 1 else 0))"

text \<open>Binary mode: \<^verbatim>\<open>1 if qty > 0 else 0\<close>.\<close>

definition binary :: "int \<Rightarrow> int" where
  "binary q = (if q > 0 then 1 else 0)"

text \<open>
  One pass of the \<^verbatim>\<open>for\<close> statement of each of the three feed types. The result is an exception, \<open>None\<close> when the row is
  skipped by \<^verbatim>\<open>continue\<close>, or the entry written into \<^verbatim>\<open>stock\<close>.
\<close>

definition azuregreen_row :: "env \<Rightarrow> row \<Rightarrow> exn + (string \<times> int) option" where
  "azuregreen_row e r =
     (case cell_strip (row_get r ''NUMBER'' '''') of Inl x \<Rightarrow> Inl x | Inr sk \<Rightarrow>
     (case cell_strip (row_get r ''UNITS'' ''0'') of Inl x \<Rightarrow> Inl x | Inr qty_raw \<Rightarrow>
     (case cell_strip (row_get r ''CANTSELL'' ''0'') of Inl x \<Rightarrow> Inl x | Inr cant_sell \<Rightarrow>
        if sk = '''' then Inr None
        else (case int_float_or_zero e qty_raw of Inl x \<Rightarrow> Inl x | Inr qty \<Rightarrow>
                Inr (Some (sk, binary (if cant_sell = ''1'' then 0 else qty)))))))"

definition diecast_row :: "env \<Rightarrow> row \<Rightarrow> exn + (string \<times> int) option" where
  "diecast_row e r =
     (case cell_strip (row_get r ''Product ID'' '''') of Inl x \<Rightarrow> Inl x | Inr sk \<Rightarrow>
     (case cell_strip (row_get r ''Product Visible'' ''0'') of Inl x \<Rightarrow> Inl x | Inr qty_raw \<Rightarrow>
        if sk = '''' then Inr None
        else Inr (Some (sk, binary (int_or_token e qty_raw)))))"

text \<open>
  The argument \<^verbatim>\<open>column_mapping\<close>: \<^verbatim>\<open>None\<close> or a dict from the keys \<^verbatim>\<open>"sku_column"\<close>
  and \<^verbatim>\<open>"quantity_column"\<close> to column names. \<^verbatim>\<open>column_mapping.get(key, default)\<close> raises
  \<^verbatim>\<open>AttributeError\<close> on \<^verbatim>\<open>None\<close>.
\<close>

type_synonym column_mapping = "(string, string) fmap option"

definition mapping_get :: "column_mapping \<Rightarrow> string \<Rightarrow> string \<Rightarrow> exn + string" where
  "mapping_get cm k d =
     (case cm of
        None \<Rightarrow> Inl AttributeError
      | Some m \<Rightarrow> Inr (case fmlookup m k of None \<Rightarrow> d | Some v \<Rightarrow> v))"

definition custom_row :: "env \<Rightarrow> column_mapping \<Rightarrow> row \<Rightarrow> exn + (string \<times> int) option" where
  "custom_row e cm r =
     (case mapping_get cm ''sku_column'' ''SKU'' of Inl x \<Rightarrow> Inl x | Inr sku_column \<Rightarrow>
     (case cell_strip (row_get r sku_column '''') of Inl x \<Rightarrow> Inl x | Inr sk \<Rightarrow>
     (case mapping_get cm ''quantity_column'' ''Quantity'' of Inl x \<Rightarrow> Inl x | Inr quantity_column \<Rightarrow>
     (case cell_strip (row_get r quantity_column ''0'') of Inl x \<Rightarrow> Inl x | Inr qty_raw \<Rightarrow>
        if sk = '''' then Inr None
        else (case int_float_or_zero e qty_raw of Inl x \<Rightarrow> Inl x | Inr qty \<Rightarrow>
                Inr (Some (sk, binary qty)))))))"

text \<open>The \<^verbatim>\<open>for row in reader\<close> loop around one of the three bodies.\<close>

fun read_rows :: "(row \<Rightarrow> exn + (string \<times> int) option) \<Rightarrow> row list \<Rightarrow> stock \<Rightarrow> exn + stock" where
  "read_rows body [] st = Inr st"
| "read_rows body (r # rs) st =
     (case body r of
        Inl x \<Rightarrow> Inl x
      | Inr None \<Rightarrow> read_rows body rs st
      | Inr (Some (k, v)) \<Rightarrow> read_rows body rs (st(k \<mapsto> v)))"

text \<open>
  The truth value of \<^verbatim>\<open>column_mapping\<close> at line 95: \<^verbatim>\<open>None\<close> and the empty dict are
  false.
\<close>

definition truthy :: "column_mapping \<Rightarrow> bool" where
  "truthy cm = (case cm of None \<Rightarrow> False | Some m \<Rightarrow> m \<noteq> fmempty)"

definition download_supplier_stock :: "env \<Rightarrow> string \<Rightarrow> column_mapping \<Rightarrow> exn + stock" where
  "download_supplier_stock e feed_type cm =
     (case feed_rows e of
        Inl x \<Rightarrow> Inl x
      | Inr rows \<Rightarrow>
          if feed_type = ''azuregreen'' then read_rows (azuregreen_row e) rows Map.empty
          else if feed_type = ''diecast'' then read_rows (diecast_row e) rows Map.empty
          else if feed_type = ''custom'' \<and> truthy cm
            then read_rows (custom_row e cm) rows Map.empty
          else Inr Map.empty)"


subsection \<open>\<^verbatim>\<open>_fetch_listings_page\<close> and \<^verbatim>\<open>fetch_ebay_listings\<close>\<close>

text \<open>Lines 179 to 181: the entry \<^verbatim>\<open>f"[{code}] {msg}"\<close> of \<^verbatim>\<open>msgs\<close> for one \<^verbatim>\<open>Errors\<close> element.\<close>

definition error_msg :: "error_entry \<Rightarrow> string" where
  "error_msg er =
     ''['' @ error_code er @ ''] '' @
     (if long_message er \<noteq> '''' then long_message er else short_message er)"

text \<open>Lines 198, 199: \<^verbatim>\<open>int(el.text) if el is not None and el.text else 0\<close>.\<close>

definition elem_int_or_zero :: "env \<Rightarrow> xml_elem \<Rightarrow> exn + int" where
  "elem_int_or_zero e el =
     (case el of
        NotFound \<Rightarrow> Inr 0
      | Element None \<Rightarrow> Inr 0
      | Element (Some t) \<Rightarrow>
          if t = '''' then Inr 0
          else (case py_int e t of None \<Rightarrow> Inl ValueError | Some n \<Rightarrow> Inr n))"

text \<open>The loop of lines 185 to 207 over the \<^verbatim>\<open>Item\<close> elements.\<close>

fun read_items :: "env \<Rightarrow> item_entry list \<Rightarrow> listing list \<Rightarrow> exn + listing list" where
  "read_items e [] items = Inr items"
| "read_items e (it # its) items =
     (if listing_status it \<noteq> ''Active'' then read_items e its items
      else
       (case elem_int_or_zero e (quantity_el it) of Inl x \<Rightarrow> Inl x | Inr qty_total \<Rightarrow>
       (case elem_int_or_zero e (quantity_sold_el it) of Inl x \<Rightarrow> Inl x | Inr qty_sold \<Rightarrow>
          if item_id_text it \<noteq> '''' \<and> strip (sku_text it) \<noteq> ''''
          then read_items e its
                 (items @ [\<lparr>item_id = item_id_text it, sku = strip (sku_text it),
                            current_qty = max 0 (qty_total - qty_sold)\<rparr>])
          else read_items e its items)))"

text \<open>Lines 210 to 216: \<^verbatim>\<open>total_pages\<close>; \<^verbatim>\<open>int(None)\<close> raises \<^verbatim>\<open>TypeError\<close>.\<close>

definition total_pages_of :: "env \<Rightarrow> page_response \<Rightarrow> exn + int" where
  "total_pages_of e resp =
     (case pagination_result resp of
        None \<Rightarrow> Inr 1
      | Some NotFound \<Rightarrow> Inr 1
      | Some (Element None) \<Rightarrow> Inl TypeError
      | Some (Element (Some t)) \<Rightarrow>
          (case py_int e t of None \<Rightarrow> Inl ValueError | Some n \<Rightarrow> Inr n))"

text \<open>Lines 218, 219: \<^verbatim>\<open>has_more\<close>.\<close>

definition has_more_of :: "page_response \<Rightarrow> bool" where
  "has_more_of resp = (has_more_items resp = Element (Some ''true''))"

text \<open>
  \<^verbatim>\<open>_fetch_listings_page\<close>. The request itself (credentials, the window of 119 days, 200
  entries per page) is not modelled: \<open>seller_list\<close> answers by page number. The result is
  \<^verbatim>\<open>(items, total_pages, has_more)\<close>.
\<close>

definition fetch_listings_page :: "env \<Rightarrow> int \<Rightarrow> exn + (listing list \<times> int \<times> bool)" where
  "fetch_listings_page e page =
     (case seller_list e page of
        Inl x \<Rightarrow> Inl x
      | Inr resp \<Rightarrow>
          if ack resp \<notin> set [''Success'', ''Warning'']
          then Inl (GetSellerListFailed (map error_msg (errors resp)))
          else
           (case read_items e (item_array resp) [] of Inl x \<Rightarrow> Inl x | Inr items \<Rightarrow>
           (case total_pages_of e resp of Inl x \<Rightarrow> Inl x | Inr total_pages \<Rightarrow>
              Inr (items, total_pages, has_more_of resp))))"

text \<open>
  The \<^verbatim>\<open>while True\<close> loop of lines 126 to 139. Besides \<^verbatim>\<open>page\<close> and \<^verbatim>\<open>all_items\<close> the
  state holds \<open>requested\<close>, the page numbers requested so far, in order. The result is the
  final \<open>requested\<close> and the outcome of the loop. In \<open>res\<close>, \<open>fst res\<close> is \<^verbatim>\<open>items\<close>,
  \<open>fst (snd res)\<close> is \<^verbatim>\<open>total_pages\<close> and \<open>snd (snd res)\<close> is \<^verbatim>\<open>has_more\<close>.
\<close>

function fetch_loop ::
  "env \<Rightarrow> int \<Rightarrow> listing list \<Rightarrow> int list \<Rightarrow> int list \<times> (exn + listing list)" where
  "fetch_loop e page all_items requested =
     (case fetch_listings_page e page of
        Inl x \<Rightarrow> (requested @ [page], Inl x)
      | Inr res \<Rightarrow>
          if page \<ge> fst (snd res) \<and> \<not> snd (snd res)
          then (requested @ [page], Inr (all_items @ fst res))
          else if page + 1 > 500
          then (requested @ [page], Inr (all_items @ fst res))
          else fetch_loop e (page + 1) (all_items @ fst res) (requested @ [page]))"
  by pat_completeness auto
termination
  by (relation "measure (\<lambda>(e, page, all_items, requested). nat (501 - page))") auto

declare fetch_loop.simps [simp del]

definition fetch_ebay_listings :: "env \<Rightarrow> exn + listing list" where
  "fetch_ebay_listings e = snd (fetch_loop e 1 [] [])"

definition pages_requested :: "env \<Rightarrow> int list" where
  "pages_requested e = fst (fetch_loop e 1 [] [])"

subsection \<open>The diff step of \<^verbatim>\<open>run_sync\<close>\<close>

text \<open>The loop of lines 302 to 315, with the two lists it appends to.\<close>

fun find_updates ::
  "stock \<Rightarrow> listing list \<Rightarrow> pending_update list \<Rightarrow> string list
   \<Rightarrow> pending_update list \<times> string list" where
  "find_updates supplier_stock [] updates_needed unmatched = (updates_needed, unmatched)"
| "find_updates supplier_stock (l # ls) updates_needed unmatched =
     (case supplier_stock (sku l) of
        None \<Rightarrow> find_updates supplier_stock ls updates_needed (unmatched @ [sku l])
      | Some new \<Rightarrow>
          if new \<noteq> current_qty l
          then find_updates supplier_stock ls
                 (updates_needed @ [\<lparr>upd_item_id = item_id l, upd_sku = sku l,
                                      old_qty = current_qty l, new_qty = new\<rparr>])
                 unmatched
          else find_updates supplier_stock ls updates_needed unmatched)"

subsection \<open>\<^verbatim>\<open>_update_batch\<close> and \<^verbatim>\<open>update_ebay_quantities\<close>\<close>

definition batch_size :: nat where
  "batch_size = 4"

text \<open>
  \<^verbatim>\<open>_update_batch\<close>, as the \<open>k\<close>-th request: the number of \<^verbatim>\<open>InventoryStatus\<close> elements of
  an accepted response, 0 for another acknowledgment, or the exception of the request.
\<close>

definition update_batch :: "env \<Rightarrow> nat \<Rightarrow> pending_update list \<Rightarrow> exn + nat" where
  "update_batch e k batch =
     (case revise e k batch of
        Inl x \<Rightarrow> Inl x
      | Inr resp \<Rightarrow>
          if revise_ack resp \<in> set [''Success'', ''Warning'']
          then Inr (inventory_status resp)
          else Inr 0)"

text \<open>
  The loop \<^verbatim>\<open>for i in range(0, len(updates), self.batch_size)\<close> of lines 231 to 241. The
  state holds the two counters and \<open>sent\<close>, the batches submitted so far, in order.
\<close>

function update_loop ::
  "env \<Rightarrow> pending_update list \<Rightarrow> nat \<Rightarrow> nat \<Rightarrow> nat \<Rightarrow> pending_update list list
   \<Rightarrow> (nat \<times> nat) \<times> pending_update list list" where
  "update_loop e updates i total_success total_failed sent =
     (if i < length updates then
        (let batch = take batch_size (drop i updates) in
         case update_batch e (length sent) batch of
           Inr success \<Rightarrow>
             update_loop e updates (i + batch_size) (total_success + success)
               (if success < length batch then total_failed + (length batch - success)
                else total_failed)
               (sent @ [batch])
         | Inl x \<Rightarrow>
             update_loop e updates (i + batch_size) total_success
               (total_failed + length batch) (sent @ [batch]))
      else ((total_success, total_failed), sent))"
  by pat_completeness auto
termination
  by (relation "measure (\<lambda>(e, updates, i, ts, tf, sent). length updates - i)")
     (auto simp: batch_size_def)

declare update_loop.simps [simp del]

definition update_ebay_quantities :: "env \<Rightarrow> pending_update list \<Rightarrow> nat \<times> nat" where
  "update_ebay_quantities e updates = fst (update_loop e updates 0 0 0 [])"

definition batches_sent :: "env \<Rightarrow> pending_update list \<Rightarrow> pending_update list list" where
  "batches_sent e updates = snd (update_loop e updates 0 0 0 [])"

subsection \<open>\<^verbatim>\<open>run_sync\<close>\<close>

text \<open>
  The summary dict. \<open>error_message\<close> holds the exception \<^verbatim>\<open>e\<close> whose \<^verbatim>\<open>str(e)\<close> the code
  stores, or \<open>None\<close>.
\<close>

record sync_result =
  status :: string
  total_listings_checked :: nat
  items_updated :: nat
  items_failed :: nat
  items_out_of_stock :: nat
  unmatched_skus :: nat
  error_message :: "exn option"

text \<open>The handler \<^verbatim>\<open>except Exception as e\<close> of lines 340 to 353.\<close>

definition sync_failed :: "exn \<Rightarrow> sync_result" where
  "sync_failed x =
     \<lparr>status = ''failed'', total_listings_checked = 0, items_updated = 0, items_failed = 0,
      items_out_of_stock = 0, unmatched_skus = 0, error_message = Some x\<rparr>"

definition run_sync :: "env \<Rightarrow> string \<Rightarrow> column_mapping \<Rightarrow> sync_result" where
  "run_sync e feed_type cm =
     (case download_supplier_stock e feed_type cm of
        Inl x \<Rightarrow> sync_failed x
      | Inr supplier_stock \<Rightarrow>
     (case fetch_ebay_listings e of
        Inl x \<Rightarrow> sync_failed x
      | Inr ebay_listings \<Rightarrow>
          (let found = find_updates supplier_stock ebay_listings [] [];
               updates_needed = fst found;
               unmatched = snd found;
               counts = (if updates_needed \<noteq> [] then update_ebay_quantities e updates_needed
                         else (0, 0))
           in \<lparr>status = ''completed'',
               total_listings_checked = length ebay_listings,
               items_updated = fst counts,
               items_failed = snd counts,
               items_out_of_stock = length (filter (\<lambda>u. new_qty u = 0) updates_needed),
               unmatched_skus = length unmatched,
               error_message = None\<rparr>)))"

subsection \<open>Notions for the statements\<close>

text \<open>
  What the pass of the loop of lines 231 to 241 for the \<open>k\<close>-th request adds to
  \<^verbatim>\<open>total_success\<close> and \<^verbatim>\<open>total_failed\<close>: used to state the sums of the loop.
\<close>

definition batch_counts ::
  "env \<Rightarrow> nat \<Rightarrow> pending_update list \<Rightarrow> nat \<times> nat" where
  "batch_counts e k batch =
     (case revise e k batch of
        Inl x \<Rightarrow> (0, length batch)
      | Inr resp \<Rightarrow>
          if revise_ack resp = ''Success'' \<or> revise_ack resp = ''Warning''
          then (inventory_status resp,
                if inventory_status resp < length batch
                then length batch - inventory_status resp else 0)
          else (0, length batch))"

text \<open>
  For the statements about the loop: the items of page \<open>p\<close>, and the condition of line 132
  at page \<open>p\<close>.
\<close>

definition page_items :: "env \<Rightarrow> int \<Rightarrow> listing list" where
  "page_items e p = (case fetch_listings_page e p of Inl x \<Rightarrow> [] | Inr res \<Rightarrow> fst res)"

definition last_page :: "env \<Rightarrow> int \<Rightarrow> bool" where
  "last_page e p =
     (case fetch_listings_page e p of
        Inl x \<Rightarrow> False
      | Inr res \<Rightarrow> p \<ge> fst (snd res) \<and> \<not> snd (snd res))"

subsection \<open>Example inputs\<close>

text \<open>
  Python's \<^verbatim>\<open>float\<close> and \<^verbatim>\<open>int\<close> on the strings that the examples below pass to them
  (the examples pass no other string).
\<close>

definition ex_float :: "string \<Rightarrow> pyfloat option" where
  "ex_float s =
     (if s = ''0'' then Some (Finite 0)
      else if s = ''1'' then Some (Finite 1)
      else if s = ''3'' then Some (Finite 3)
      else if s = ''5'' then Some (Finite 5)
      else if s = ''2.5'' then Some (Finite (5 / 2))
      else if s = ''inf'' then Some PosInf
      else if s = ''nan'' then Some NaN
      else None)"

definition ex_int :: "string \<Rightarrow> int option" where
  "ex_int s =
     (if s = ''0'' then Some 0
      else if s = ''1'' then Some 1
      else if s = ''2'' then Some 2
      else if s = ''3'' then Some 3
      else None)"

text \<open>An active item with nothing sold, and an accepted page that reports \<open>n\<close> pages.\<close>

definition ex_item :: "string \<Rightarrow> string \<Rightarrow> string \<Rightarrow> item_entry" where
  "ex_item i s q =
     \<lparr>item_id_text = i, sku_text = s, listing_status = ''Active'',
      quantity_el = Element (Some q), quantity_sold_el = NotFound\<rparr>"

definition ex_page :: "item_entry list \<Rightarrow> string \<Rightarrow> page_response" where
  "ex_page its n =
     \<lparr>ack = ''Success'', errors = [], item_array = its,
      pagination_result = Some (Element (Some n)), has_more_items = Element (Some ''false'')\<rparr>"

text \<open>
  The end-to-end example: the feed gives \<^verbatim>\<open>A\<close> one unit and \<^verbatim>\<open>B\<close> none, the seller lists
  \<^verbatim>\<open>A\<close> with quantity 0 and \<^verbatim>\<open>B\<close> with quantity 1, and every update request is accepted
  for all its items.
\<close>

definition ex_env :: env where
  "ex_env =
     \<lparr>feed_rows = Inr [[''NUMBER'' \<mapsto> Some ''A'', ''UNITS'' \<mapsto> Some ''1''],
                       [''NUMBER'' \<mapsto> Some ''B'', ''UNITS'' \<mapsto> Some ''0'']],
      py_float = ex_float,
      py_int = ex_int,
      seller_list =
        (\<lambda>page. Inr (ex_page [ex_item ''I1'' ''A'' ''0'', ex_item ''I2'' ''B'' ''1''] ''1'')),
      revise = (\<lambda>k batch. Inr \<lparr>revise_ack = ''Success'', inventory_status = length batch\<rparr>)\<rparr>"

text \<open>
  A feed with the header \<^verbatim>\<open>SKU,Quantity\<close> and two rows for the same SKU, and an
  \<^verbatim>\<open>azuregreen\<close> feed with a blank SKU (a no-break space and a space) and a SKU that
  occurs twice, the second time between a no-break space and a space.
\<close>

definition ex_env_custom :: env where
  "ex_env_custom =
     ex_env\<lparr>feed_rows := Inr [[''SKU'' \<mapsto> Some ''A'', ''Quantity'' \<mapsto> Some ''3''],
                              [''SKU'' \<mapsto> Some ''A'', ''Quantity'' \<mapsto> Some ''0'']]\<rparr>"

definition ex_env_duplicates :: env where
  "ex_env_duplicates =
     ex_env\<lparr>feed_rows := Inr [[''NUMBER'' \<mapsto> Some ''A'', ''UNITS'' \<mapsto> Some ''5''],
                              [''NUMBER'' \<mapsto> Some [CHR 0xA0, CHR 0x20], ''UNITS'' \<mapsto> Some ''3''],
                              [''NUMBER'' \<mapsto> Some (CHR 0xA0 # ''A ''), ''UNITS'' \<mapsto> Some ''0'']]\<rparr>"

text \<open>A rejected page with two \<^verbatim>\<open>Errors\<close> elements, the second without a long message.\<close>

definition ex_failure_page :: page_response where
  "ex_failure_page =
     \<lparr>ack = ''Failure'',
      errors = [\<lparr>error_code = ''931'', long_message = ''Auth token is invalid.'',
                 short_message = ''Invalid token''\<rparr>,
                \<lparr>error_code = ''17'', long_message = '''',
                 short_message = ''Not allowed''\<rparr>],
      item_array = [], pagination_result = None, has_more_items = NotFound\<rparr>"

text \<open>The example with a feed download that fails, and with every page rejected.\<close>

definition ex_env_feed_down :: env where
  "ex_env_feed_down = ex_env\<lparr>feed_rows := Inl (RequestError ''404 Client Error'')\<rparr>"

definition ex_env_ack_failure :: env where
  "ex_env_ack_failure = ex_env\<lparr>seller_list := (\<lambda>page. Inr ex_failure_page)\<rparr>"

text \<open>
  A seller with two pages of one listing each, and a server that reports one page and claims
  on every page that there are more items.
\<close>

definition ex_env_two_pages :: env where
  "ex_env_two_pages =
     ex_env\<lparr>seller_list :=
       (\<lambda>page. if page = 1 then Inr (ex_page [ex_item ''I1'' ''A'' ''0''] ''2'')
               else Inr (ex_page [ex_item ''I2'' ''B'' ''1''] ''2''))\<rparr>"

definition ex_env_endless :: env where
  "ex_env_endless =
     ex_env\<lparr>seller_list :=
       (\<lambda>page. Inr ((ex_page [ex_item ''I1'' ''A'' ''0''] ''1'')
                      \<lparr>has_more_items := Element (Some ''true'')\<rparr>))\<rparr>"

text \<open>
  Nine updates against a remote that accepts three of the four items of the first batch,
  times out on the second request and accepts the third.
\<close>

definition ex_update :: "int \<Rightarrow> pending_update" where
  "ex_update n = \<lparr>upd_item_id = ''I'', upd_sku = ''S'', old_qty = 0, new_qty = n\<rparr>"

definition ex_env_batches :: env where
  "ex_env_batches =
     ex_env\<lparr>revise :=
       (\<lambda>k batch.
          if k = 0 then Inr \<lparr>revise_ack = ''Success'', inventory_status = 3\<rparr>
          else if k = 1 then Inl (RequestError ''Read timed out'')
          else Inr \<lparr>revise_ack = ''Warning'', inventory_status = length batch\<rparr>)\<rparr>"

section \<open>Properties\<close>

subsection \<open>The rows of a feed\<close>

lemma cell_strip_Inr: "cell_strip c = Inr sk \<longleftrightarrow> (\<exists>s. c = Some s \<and> sk = strip s)"
  by (auto simp: cell_strip_def split: option.splits)

lemma cell_strip_Some [simp]: "cell_strip (Some s) = Inr (strip s)"
  by (simp add: cell_strip_def)

lemma row_get_other: "k \<noteq> c \<Longrightarrow> row_get (r(c := x)) k d = row_get r k d"
  by (simp add: row_get_def)

lemma int_float_or_zero_finite:
  "py_float e s \<noteq> Some PosInf \<Longrightarrow> py_float e s \<noteq> Some NegInf \<Longrightarrow>
   int_float_or_zero e s =
     Inr (case py_float e s of Some (Finite q) \<Rightarrow> trunc q | _ \<Rightarrow> 0)"
  by (auto simp: int_float_or_zero_def split: option.splits pyfloat.splits)

text \<open>
  C5, as amended. Take an \<^verbatim>\<open>azuregreen\<close> row whose cells \<^verbatim>\<open>NUMBER\<close>, \<^verbatim>\<open>UNITS\<close> and
  \<^verbatim>\<open>CANTSELL\<close> are strings or absent (an absent cell reads as its default), whose SKU is
  not empty after trimming and whose \<^verbatim>\<open>UNITS\<close> does not parse to an infinity. Its entry is
  the trimmed SKU with availability 1 exactly when the \<^verbatim>\<open>UNITS\<close> value, parsed as a float
  and truncated (0 when it does not parse or is a NaN), is positive and the
  \<^emph>\<open>trimmed\<close> \<^verbatim>\<open>CANTSELL\<close> value is not \<^verbatim>\<open>"1"\<close>; otherwise the availability is 0. A
  \<^verbatim>\<open>DISCONT\<close> cell, whatever it holds, does not change the outcome of any row.
\<close>

theorem azuregreen_row_availability:
  assumes "row_get r ''NUMBER'' '''' = Some number"
    and "row_get r ''UNITS'' ''0'' = Some units"
    and "row_get r ''CANTSELL'' ''0'' = Some cantsell"
    and "strip number \<noteq> ''''"
    and "py_float e (strip units) \<noteq> Some PosInf"
    and "py_float e (strip units) \<noteq> Some NegInf"
  shows "azuregreen_row e r =
           Inr (Some (strip number,
                      if (case py_float e (strip units) of
                            Some (Finite q) \<Rightarrow> trunc q | _ \<Rightarrow> 0) > 0
                         \<and> strip cantsell \<noteq> ''1''
                      then 1 else 0))
       \<and> azuregreen_row e (r(''DISCONT'' := discont)) = azuregreen_row e r"
proof -
  have "azuregreen_row e (r(''DISCONT'' := discont)) = azuregreen_row e r"
    by (simp add: azuregreen_row_def row_get_other cong: sum.case_cong)
  then show ?thesis
    using assms
    by (simp add: azuregreen_row_def int_float_or_zero_finite binary_def)
qed

theorem azuregreen_row_availability_witness:
  "azuregreen_row ex_env [''NUMBER'' \<mapsto> Some ''X1'', ''UNITS'' \<mapsto> Some ''5'', ''CANTSELL'' \<mapsto> Some ''1'']
     = Inr (Some (''X1'', 0))
   \<and> azuregreen_row ex_env [''NUMBER'' \<mapsto> Some ''X2'', ''UNITS'' \<mapsto> Some ''3'', ''CANTSELL'' \<mapsto> Some ''0'']
     = Inr (Some (''X2'', 1))
   \<and> azuregreen_row ex_env [''NUMBER'' \<mapsto> Some ''X3'', ''UNITS'' \<mapsto> Some ''2.5'', ''DISCONT'' \<mapsto> Some ''1'']
     = Inr (Some (''X3'', 1))
   \<and> azuregreen_row ex_env
       [''NUMBER'' \<mapsto> Some ''X4'', ''UNITS'' \<mapsto> Some ''5'',
        ''CANTSELL'' \<mapsto> Some (''1'' @ [CHR 0xA0])]
     = Inr (Some (''X4'', 0))"
  using azuregreen_row_availability [of
      "[''NUMBER'' \<mapsto> Some ''X1'', ''UNITS'' \<mapsto> Some ''5'', ''CANTSELL'' \<mapsto> Some ''1'']"
      "''X1''" "''5''" "''1''" ex_env]
    azuregreen_row_availability [of
      "[''NUMBER'' \<mapsto> Some ''X2'', ''UNITS'' \<mapsto> Some ''3'', ''CANTSELL'' \<mapsto> Some ''0'']"
      "''X2''" "''3''" "''0''" ex_env]
    azuregreen_row_availability [of
      "[''NUMBER'' \<mapsto> Some ''X3'', ''UNITS'' \<mapsto> Some ''2.5'']"
      "''X3''" "''2.5''" "''0''" ex_env "Some (Some ''1'')"]
    azuregreen_row_availability [of
      "[''NUMBER'' \<mapsto> Some ''X4'', ''UNITS'' \<mapsto> Some ''5'',
        ''CANTSELL'' \<mapsto> Some (''1'' @ [CHR 0xA0])]"
      "''X4''" "''5''" "''1'' @ [CHR 0xA0]" ex_env]
  by (simp add: row_get_def strip_def is_space_def ex_env_def ex_float_def trunc_def)

text \<open>
  C5 as stated fails where \<^verbatim>\<open>CANTSELL\<close> has surrounding white space: the cell
  \<^verbatim>\<open>" 1"\<close> is not \<^verbatim>\<open>"1"\<close> and the quantity 5 is positive, yet the availability is 0,
  because line 59 trims the cell before line 70 compares it.
\<close>

theorem azuregreen_cantsell_untrimmed_counterexample:
  "[''NUMBER'' \<mapsto> Some ''X1'', ''UNITS'' \<mapsto> Some ''5'', ''CANTSELL'' \<mapsto> Some '' 1''] ''CANTSELL''
     \<noteq> Some (Some ''1'')
   \<and> int_float_or_zero ex_env ''5'' = Inr 5
   \<and> azuregreen_row ex_env
        [''NUMBER'' \<mapsto> Some ''X1'', ''UNITS'' \<mapsto> Some ''5'', ''CANTSELL'' \<mapsto> Some '' 1'']
     = Inr (Some (''X1'', 0))"
  by (simp add: azuregreen_row_def row_get_def strip_def is_space_def ex_env_def ex_float_def
      trunc_def int_float_or_zero_def binary_def)

subsection \<open>The stock map of a feed\<close>

lemma read_rows_append:
  "read_rows body (xs @ ys) st0 =
     (case read_rows body xs st0 of Inl x \<Rightarrow> Inl x | Inr st1 \<Rightarrow> read_rows body ys st1)"
  by (induction xs arbitrary: st0) (auto split: sum.splits option.splits)

lemma read_rows_all_Inr:
  "read_rows body rows st0 = Inr st \<Longrightarrow> r \<in> set rows \<Longrightarrow> \<exists>entry. body r = Inr entry"
  by (induction rows arbitrary: st0) (auto split: sum.splits option.splits)

lemma read_rows_unwritten:
  "read_rows body rows st0 = Inr st \<Longrightarrow>
   (\<And>r v. r \<in> set rows \<Longrightarrow> body r \<noteq> Inr (Some (k, v))) \<Longrightarrow> st k = st0 k"
proof (induction rows arbitrary: st0)
  case Nil
  then show ?case by simp
next
  case (Cons r rows)
  show ?case
  proof (cases "body r")
    case (Inl x)
    with Cons.prems(1) show ?thesis by simp
  next
    case (Inr entry)
    show ?thesis
    proof (cases entry)
      case None
      with Inr Cons show ?thesis by simp
    next
      case (Some kv)
      obtain k' v' where kv: "kv = (k', v')"
        by (cases kv)
      with Some Inr Cons.prems(2) [of r v'] have "k' \<noteq> k"
        by auto
      moreover have step: "read_rows body rows (st0(k' \<mapsto> v')) = Inr st"
        using Cons.prems(1) Inr Some kv by simp
      have "st k = (st0(k' \<mapsto> v')) k"
        by (rule Cons.IH [OF step]) (simp add: Cons.prems(2))
      ultimately show ?thesis by simp
    qed
  qed
qed

lemma read_rows_dom:
  "read_rows body rows st0 = Inr st \<Longrightarrow>
   dom st = dom st0 \<union> {k. \<exists>r \<in> set rows. \<exists>v. body r = Inr (Some (k, v))}"
proof (induction rows arbitrary: st0)
  case Nil
  then show ?case by simp
next
  case (Cons r rows)
  show ?case
  proof (cases "body r")
    case (Inl x)
    with Cons.prems show ?thesis by simp
  next
    case (Inr entry)
    show ?thesis
    proof (cases entry)
      case None
      with Inr Cons.prems Cons.IH [of st0] show ?thesis by auto
    next
      case (Some kv)
      obtain k' v' where kv: "kv = (k', v')"
        by (cases kv)
      have step: "read_rows body rows (st0(k' \<mapsto> v')) = Inr st"
        using Cons.prems Inr Some kv by simp
      have "dom st = dom (st0(k' \<mapsto> v')) \<union> {k. \<exists>r \<in> set rows. \<exists>v. body r = Inr (Some (k, v))}"
        by (rule Cons.IH [OF step])
      then show ?thesis
        using Inr Some kv by auto
    qed
  qed
qed

lemma read_rows_filter:
  "read_rows body rows st0 = Inr st \<Longrightarrow>
   (\<And>r. r \<in> set rows \<Longrightarrow> \<not> P r \<Longrightarrow> body r = Inr None \<or> (\<exists>x. body r = Inl x)) \<Longrightarrow>
   read_rows body (filter P rows) st0 = Inr st"
proof (induction rows arbitrary: st0)
  case Nil
  then show ?case by simp
next
  case (Cons r rows)
  show ?case
  proof (cases "P r")
    case True
    with Cons show ?thesis
      by (auto split: sum.splits option.splits)
  next
    case False
    with Cons.prems(2) [of r] Cons.prems(1) have "body r = Inr None"
      by (auto split: sum.splits)
    with False Cons show ?thesis
      by simp
  qed
qed

lemma read_rows_map: "read_rows body (map f rows) st0 = read_rows (\<lambda>r. body (f r)) rows st0"
  by (induction rows arbitrary: st0) (auto split: sum.splits option.splits)

lemma strip_zero: "strip ''0'' = ''0''"
  by (simp add: strip_def is_space_def)

lemma custom_row_as_azuregreen:
  "custom_row e (Some m) =
     (\<lambda>r. azuregreen_row e
       (\<lambda>c. if c = ''NUMBER''
             then r (case fmlookup m ''sku_column'' of None \<Rightarrow> ''SKU'' | Some c' \<Rightarrow> c')
             else if c = ''UNITS''
             then r (case fmlookup m ''quantity_column'' of None \<Rightarrow> ''Quantity'' | Some c' \<Rightarrow> c')
             else None))"
  by (rule ext) (simp add: custom_row_def azuregreen_row_def mapping_get_def row_get_def strip_zero
      cong: sum.case_cong if_cong)

lemma parse_feed_rows:
  "int_float_or_zero (e\<lparr>feed_rows := x\<rparr>) = int_float_or_zero e"
  "int_or_token (e\<lparr>feed_rows := x\<rparr>) = int_or_token e"
  by (simp_all add: fun_eq_iff int_float_or_zero_def int_or_token_def)

lemma row_bodies_feed_rows:
  "azuregreen_row (e\<lparr>feed_rows := x\<rparr>) = azuregreen_row e"
  "diecast_row (e\<lparr>feed_rows := x\<rparr>) = diecast_row e"
  "custom_row (e\<lparr>feed_rows := x\<rparr>) = custom_row e"
  by (simp_all add: fun_eq_iff azuregreen_row_def diecast_row_def custom_row_def
      parse_feed_rows cong: sum.case_cong if_cong)

text \<open>
  C4, as amended. With the column mapping missing or empty, a \<^verbatim>\<open>custom\<close> feed gives the
  empty stock map whatever its header. With a non-empty mapping, the feed is read as an
  \<^verbatim>\<open>azuregreen\<close> feed without \<^verbatim>\<open>CANTSELL\<close> is (same float parse, truncation and binary
  reduction), its SKU taken from the column that \<^verbatim>\<open>sku_column\<close> names, \<^verbatim>\<open>"SKU"\<close> when the
  mapping has no such key, and its quantity from the column that \<^verbatim>\<open>quantity_column\<close>
  names, \<^verbatim>\<open>"Quantity"\<close> when the mapping has no such key.
\<close>

theorem custom_column_defaults:
  assumes "feed_rows e = Inr rows"
  shows "((cm = None \<or> cm = Some fmempty) \<longrightarrow>
            download_supplier_stock e ''custom'' cm = Inr Map.empty)
       \<and> (\<forall>m. cm = Some m \<and> m \<noteq> fmempty \<longrightarrow>
            download_supplier_stock e ''custom'' cm =
              download_supplier_stock
                (e\<lparr>feed_rows := Inr (map
                   (\<lambda>r c. if c = ''NUMBER''
                           then r (case fmlookup m ''sku_column'' of
                                     None \<Rightarrow> ''SKU'' | Some c' \<Rightarrow> c')
                           else if c = ''UNITS''
                           then r (case fmlookup m ''quantity_column'' of
                                     None \<Rightarrow> ''Quantity'' | Some c' \<Rightarrow> c')
                           else None)
                   rows)\<rparr>)
                ''azuregreen'' cm)"
  using assms
  by (auto simp: download_supplier_stock_def truthy_def read_rows_map row_bodies_feed_rows
      custom_row_as_azuregreen)

theorem custom_column_defaults_witness:
  "download_supplier_stock ex_env_custom ''custom'' (Some (fmupd ''note'' ''x'' fmempty))
     = Inr [''A'' \<mapsto> 0]
   \<and> download_supplier_stock ex_env_custom ''custom'' (Some (fmupd ''sku_column'' ''Quantity'' fmempty))
     = Inr [''3'' \<mapsto> 1, ''0'' \<mapsto> 0]
   \<and> download_supplier_stock ex_env_custom ''custom'' None = Inr Map.empty"
proof -
  have rows: "feed_rows ex_env_custom =
      Inr [[''SKU'' \<mapsto> Some ''A'', ''Quantity'' \<mapsto> Some ''3''],
           [''SKU'' \<mapsto> Some ''A'', ''Quantity'' \<mapsto> Some ''0'']]"
    by (simp add: ex_env_custom_def)
  show ?thesis
    using custom_column_defaults [OF rows, of "Some (fmupd ''note'' ''x'' fmempty)"]
      custom_column_defaults [OF rows, of "Some (fmupd ''sku_column'' ''Quantity'' fmempty)"]
      custom_column_defaults [OF rows, of None]
    by (simp add: download_supplier_stock_def azuregreen_row_def row_get_def strip_def
        is_space_def int_float_or_zero_def ex_env_custom_def ex_env_def ex_float_def binary_def
        trunc_def)
qed

text \<open>
  C4 as stated fails: for a \<^verbatim>\<open>custom\<close> feed with the columns \<^verbatim>\<open>SKU\<close> and
  \<^verbatim>\<open>Quantity\<close>, the stock map is empty when the column mapping is \<^verbatim>\<open>None\<close> and when it
  is the empty dict, by the guard \<^verbatim>\<open>and column_mapping\<close> of line 95.
\<close>

theorem custom_without_mapping_counterexample:
  "feed_rows ex_env_custom =
     Inr [[''SKU'' \<mapsto> Some ''A'', ''Quantity'' \<mapsto> Some ''3''],
          [''SKU'' \<mapsto> Some ''A'', ''Quantity'' \<mapsto> Some ''0'']]
   \<and> download_supplier_stock ex_env_custom ''custom'' None = Inr Map.empty
   \<and> download_supplier_stock ex_env_custom ''custom'' (Some fmempty) = Inr Map.empty"
  by (simp add: download_supplier_stock_def truthy_def ex_env_custom_def)

lemma azuregreen_row_sku:
  "azuregreen_row e r = Inr entry \<Longrightarrow>
   \<exists>s. row_get r ''NUMBER'' '''' = Some s \<and>
       ((entry = None \<and> strip s = '''') \<or> (\<exists>v. entry = Some (strip s, v) \<and> strip s \<noteq> ''''))"
  by (auto simp: azuregreen_row_def cell_strip_Inr split: sum.splits if_splits)

lemma diecast_row_sku:
  "diecast_row e r = Inr entry \<Longrightarrow>
   \<exists>s. row_get r ''Product ID'' '''' = Some s \<and>
       ((entry = None \<and> strip s = '''') \<or> (\<exists>v. entry = Some (strip s, v) \<and> strip s \<noteq> ''''))"
  by (auto simp: diecast_row_def cell_strip_Inr split: sum.splits if_splits)

lemma custom_row_sku:
  "custom_row e (Some m) r = Inr entry \<Longrightarrow>
   \<exists>s. row_get r (case fmlookup m ''sku_column'' of None \<Rightarrow> ''SKU'' | Some c \<Rightarrow> c) '''' = Some s \<and>
       ((entry = None \<and> strip s = '''') \<or> (\<exists>v. entry = Some (strip s, v) \<and> strip s \<noteq> ''''))"
  by (auto simp: custom_row_def mapping_get_def cell_strip_Inr split: sum.splits if_splits)

lemma read_rows_by_sku:
  assumes body: "\<And>r entry. body r = Inr entry \<Longrightarrow>
      \<exists>s. row_get r col '''' = Some s \<and>
          ((entry = None \<and> strip s = '''') \<or> (\<exists>v. entry = Some (strip s, v) \<and> strip s \<noteq> ''''))"
    and rows: "read_rows body rows Map.empty = Inr st"
  shows "read_rows body
           (filter (\<lambda>r. case row_get r col '''' of None \<Rightarrow> True | Some s \<Rightarrow> strip s \<noteq> '''') rows)
           Map.empty = Inr st"
    and "dom st = {k. k \<noteq> '''' \<and> (\<exists>r \<in> set rows. \<exists>s. row_get r col '''' = Some s \<and> strip s = k)}"
    and "\<forall>pre r post s.
          rows = pre @ r # post \<and> row_get r col '''' = Some s \<and> strip s \<noteq> ''''
          \<and> (\<forall>r' \<in> set post. \<forall>s'. row_get r' col '''' = Some s' \<longrightarrow> strip s' \<noteq> strip s) \<longrightarrow>
          (\<exists>v. body r = Inr (Some (strip s, v)) \<and> st (strip s) = Some v)"
proof -
  have entry: "\<exists>v. body r = Inr (Some (strip s, v))"
    if "r \<in> set rows" and "row_get r col '''' = Some s" and "strip s \<noteq> ''''" for r s
  proof -
    from read_rows_all_Inr [OF rows that(1)] obtain entry where e: "body r = Inr entry"
      by blast
    from body [OF e] that(2,3) e show ?thesis
      by auto
  qed
  show "read_rows body
           (filter (\<lambda>r. case row_get r col '''' of None \<Rightarrow> True | Some s \<Rightarrow> strip s \<noteq> '''') rows)
           Map.empty = Inr st"
  proof (rule read_rows_filter [OF rows])
    fix r
    assume r: "r \<in> set rows"
      and blank: "\<not> (case row_get r col '''' of None \<Rightarrow> True | Some s \<Rightarrow> strip s \<noteq> '''')"
    from read_rows_all_Inr [OF rows r] obtain entry where e: "body r = Inr entry"
      by blast
    from body [OF e] blank have "entry = None"
      by auto
    with e show "body r = Inr None \<or> (\<exists>x. body r = Inl x)"
      by simp
  qed
  have "dom st = {k. \<exists>r \<in> set rows. \<exists>v. body r = Inr (Some (k, v))}"
    using read_rows_dom [OF rows] by simp
  also have "\<dots> = {k. k \<noteq> '''' \<and> (\<exists>r \<in> set rows. \<exists>s. row_get r col '''' = Some s \<and> strip s = k)}"
  proof (intro Collect_cong iffI)
    fix k assume "\<exists>r \<in> set rows. \<exists>v. body r = Inr (Some (k, v))"
    then obtain r v where "r \<in> set rows" and "body r = Inr (Some (k, v))"
      by blast
    with body [of r "Some (k, v)"]
    show "k \<noteq> '''' \<and> (\<exists>r \<in> set rows. \<exists>s. row_get r col '''' = Some s \<and> strip s = k)"
      by auto
  next
    fix k assume "k \<noteq> '''' \<and> (\<exists>r \<in> set rows. \<exists>s. row_get r col '''' = Some s \<and> strip s = k)"
    then obtain r s where "r \<in> set rows" and "row_get r col '''' = Some s" and "strip s = k"
      and "strip s \<noteq> ''''"
      by blast
    with entry [of r s] show "\<exists>r \<in> set rows. \<exists>v. body r = Inr (Some (k, v))"
      by blast
  qed
  finally show "dom st =
      {k. k \<noteq> '''' \<and> (\<exists>r \<in> set rows. \<exists>s. row_get r col '''' = Some s \<and> strip s = k)}" .
  have "\<exists>v. body r = Inr (Some (strip s, v)) \<and> st (strip s) = Some v"
    if split: "rows = pre @ r # post" and s: "row_get r col '''' = Some s" "strip s \<noteq> ''''"
      and later: "\<And>r' s'. r' \<in> set post \<Longrightarrow> row_get r' col '''' = Some s' \<Longrightarrow> strip s' \<noteq> strip s"
    for pre r post s
  proof -
    from entry [of r s] split s obtain v where v: "body r = Inr (Some (strip s, v))"
      by auto
    from rows obtain st1 where pre: "read_rows body pre Map.empty = Inr st1"
      and post: "read_rows body post (st1(strip s \<mapsto> v)) = Inr st"
      unfolding split read_rows_append using v
      by (auto split: sum.splits)
    have "st (strip s) = (st1(strip s \<mapsto> v)) (strip s)"
    proof (rule read_rows_unwritten [OF post])
      fix r' v'
      assume r': "r' \<in> set post"
      show "body r' \<noteq> Inr (Some (strip s, v'))"
      proof
        assume w: "body r' = Inr (Some (strip s, v'))"
        from body [OF w] obtain s' where "row_get r' col '''' = Some s'" and "strip s' = strip s"
          by auto
        with later [OF r'] show False
          by blast
      qed
    qed
    with v show ?thesis
      by simp
  qed
  then show "\<forall>pre r post s.
          rows = pre @ r # post \<and> row_get r col '''' = Some s \<and> strip s \<noteq> ''''
          \<and> (\<forall>r' \<in> set post. \<forall>s'. row_get r' col '''' = Some s' \<longrightarrow> strip s' \<noteq> strip s) \<longrightarrow>
          (\<exists>v. body r = Inr (Some (strip s, v)) \<and> st (strip s) = Some v)"
    by blast
qed

lemma stock_by_sku:
  assumes dl: "\<And>rows'. download_supplier_stock (e\<lparr>feed_rows := Inr rows'\<rparr>) feed_type cm =
      read_rows body rows' Map.empty"
    and body: "\<And>r entry. body r = Inr entry \<Longrightarrow>
      \<exists>s. row_get r col '''' = Some s \<and>
          ((entry = None \<and> strip s = '''') \<or> (\<exists>v. entry = Some (strip s, v) \<and> strip s \<noteq> ''''))"
    and feed: "feed_rows e = Inr rows"
    and st: "download_supplier_stock e feed_type cm = Inr st"
  shows "download_supplier_stock
           (e\<lparr>feed_rows := Inr (filter (\<lambda>r. case row_get r col '''' of
                                              None \<Rightarrow> True | Some s \<Rightarrow> strip s \<noteq> '''') rows)\<rparr>)
           feed_type cm = Inr st
       \<and> dom st = {k. k \<noteq> '''' \<and> (\<exists>r \<in> set rows. \<exists>s. row_get r col '''' = Some s \<and> strip s = k)}
       \<and> (\<forall>pre r post s.
            rows = pre @ r # post \<and> row_get r col '''' = Some s \<and> strip s \<noteq> ''''
            \<and> (\<forall>r' \<in> set post. \<forall>s'. row_get r' col '''' = Some s' \<longrightarrow> strip s' \<noteq> strip s) \<longrightarrow>
            (\<exists>v. download_supplier_stock (e\<lparr>feed_rows := Inr [r]\<rparr>) feed_type cm
                   = Inr [strip s \<mapsto> v]
                 \<and> st (strip s) = Some v))"
proof -
  have "e\<lparr>feed_rows := Inr rows\<rparr> = e"
    using feed by simp
  with dl [of rows] st have rows: "read_rows body rows Map.empty = Inr st"
    by simp
  note facts = read_rows_by_sku [of body col, OF body rows]
  have last: "\<exists>v. download_supplier_stock (e\<lparr>feed_rows := Inr [r]\<rparr>) feed_type cm
                   = Inr [strip s \<mapsto> v]
                 \<and> st (strip s) = Some v"
    if "rows = pre @ r # post" and "row_get r col '''' = Some s" and "strip s \<noteq> ''''"
      and "\<forall>r' \<in> set post. \<forall>s'. row_get r' col '''' = Some s' \<longrightarrow> strip s' \<noteq> strip s"
    for pre r post s
  proof -
    from facts(3) that
    obtain v where "body r = Inr (Some (strip s, v))" and "st (strip s) = Some v"
      by blast
    then show ?thesis
      by (intro exI [of _ v]) (simp add: dl)
  qed
  show ?thesis
    using facts(1,2) last by (simp add: dl)
qed

text \<open>
  C6, as amended. Take an \<^verbatim>\<open>azuregreen\<close> feed, a \<^verbatim>\<open>diecast\<close> feed, or a \<^verbatim>\<open>custom\<close>
  feed with a non-empty column mapping, and let \<open>col\<close> be the column its SKU is read from.
  When the normalizer returns a stock map: the feed without the rows whose SKU trims to the
  empty string gives the same map; the keys of the map are the non-empty trimmed SKUs of
  the rows; and for a row with no later row of the same trimmed SKU, the map holds for that
  SKU the value that the feed of this row alone gives. A \<^verbatim>\<open>custom\<close> feed without a column
  mapping (\<^verbatim>\<open>None\<close> or the empty dict) gives the empty stock map.
\<close>

theorem stock_map_last_row_wins:
  assumes "feed_rows e = Inr rows"
    and "(feed_type = ''azuregreen'' \<and> col = ''NUMBER'')
         \<or> (feed_type = ''diecast'' \<and> col = ''Product ID'')
         \<or> (feed_type = ''custom''
             \<and> (\<exists>m. cm = Some m \<and> m \<noteq> fmempty
                    \<and> col = (case fmlookup m ''sku_column'' of None \<Rightarrow> ''SKU'' | Some c \<Rightarrow> c)))"
    and "download_supplier_stock e feed_type cm = Inr st"
  shows "download_supplier_stock
           (e\<lparr>feed_rows := Inr (filter (\<lambda>r. case row_get r col '''' of
                                              None \<Rightarrow> True | Some s \<Rightarrow> strip s \<noteq> '''') rows)\<rparr>)
           feed_type cm = Inr st
       \<and> dom st = {k. k \<noteq> '''' \<and> (\<exists>r \<in> set rows. \<exists>s. row_get r col '''' = Some s \<and> strip s = k)}
       \<and> (\<forall>pre r post s.
            rows = pre @ r # post \<and> row_get r col '''' = Some s \<and> strip s \<noteq> ''''
            \<and> (\<forall>r' \<in> set post. \<forall>s'. row_get r' col '''' = Some s' \<longrightarrow> strip s' \<noteq> strip s) \<longrightarrow>
            (\<exists>v. download_supplier_stock (e\<lparr>feed_rows := Inr [r]\<rparr>) feed_type cm
                   = Inr [strip s \<mapsto> v]
                 \<and> st (strip s) = Some v))
       \<and> download_supplier_stock e ''custom'' None = Inr Map.empty
       \<and> download_supplier_stock e ''custom'' (Some fmempty) = Inr Map.empty"
proof -
  have no_mapping: "download_supplier_stock e ''custom'' None = Inr Map.empty
      \<and> download_supplier_stock e ''custom'' (Some fmempty) = Inr Map.empty"
    using assms(1) by (simp add: download_supplier_stock_def truthy_def)
  consider (azuregreen) "feed_type = ''azuregreen''" "col = ''NUMBER''"
    | (diecast) "feed_type = ''diecast''" "col = ''Product ID''"
    | (custom) m where "feed_type = ''custom''" "cm = Some m" "m \<noteq> fmempty"
        "col = (case fmlookup m ''sku_column'' of None \<Rightarrow> ''SKU'' | Some c \<Rightarrow> c)"
    using assms(2) by blast
  then have "download_supplier_stock
           (e\<lparr>feed_rows := Inr (filter (\<lambda>r. case row_get r col '''' of
                                              None \<Rightarrow> True | Some s \<Rightarrow> strip s \<noteq> '''') rows)\<rparr>)
           feed_type cm = Inr st
       \<and> dom st = {k. k \<noteq> '''' \<and> (\<exists>r \<in> set rows. \<exists>s. row_get r col '''' = Some s \<and> strip s = k)}
       \<and> (\<forall>pre r post s.
            rows = pre @ r # post \<and> row_get r col '''' = Some s \<and> strip s \<noteq> ''''
            \<and> (\<forall>r' \<in> set post. \<forall>s'. row_get r' col '''' = Some s' \<longrightarrow> strip s' \<noteq> strip s) \<longrightarrow>
            (\<exists>v. download_supplier_stock (e\<lparr>feed_rows := Inr [r]\<rparr>) feed_type cm
                   = Inr [strip s \<mapsto> v]
                 \<and> st (strip s) = Some v))"
  proof cases
    case azuregreen
    have dl: "download_supplier_stock (e\<lparr>feed_rows := Inr rows'\<rparr>) feed_type cm =
        read_rows (azuregreen_row e) rows' Map.empty" for rows'
      by (simp add: download_supplier_stock_def row_bodies_feed_rows azuregreen)
    show ?thesis
      unfolding azuregreen(2)
      by (rule stock_by_sku [OF dl azuregreen_row_sku assms(1) assms(3)])
  next
    case diecast
    have dl: "download_supplier_stock (e\<lparr>feed_rows := Inr rows'\<rparr>) feed_type cm =
        read_rows (diecast_row e) rows' Map.empty" for rows'
      by (simp add: download_supplier_stock_def row_bodies_feed_rows diecast)
    show ?thesis
      unfolding diecast(2)
      by (rule stock_by_sku [OF dl diecast_row_sku assms(1) assms(3)])
  next
    case custom
    have dl: "download_supplier_stock (e\<lparr>feed_rows := Inr rows'\<rparr>) feed_type cm =
        read_rows (custom_row e (Some m)) rows' Map.empty" for rows'
      by (simp add: download_supplier_stock_def row_bodies_feed_rows custom truthy_def custom(3))
    show ?thesis
      unfolding custom(4)
      by (rule stock_by_sku [OF dl custom_row_sku assms(1) assms(3)])
  qed
  then show ?thesis
    using no_mapping by (elim conjE) (intro conjI; assumption)
qed

lemma ex_duplicates_download:
  "download_supplier_stock ex_env_duplicates ''azuregreen'' None = Inr [''A'' \<mapsto> 0]"
  by (simp add: download_supplier_stock_def ex_env_duplicates_def ex_env_def azuregreen_row_def
      row_get_def cell_strip_def strip_def is_space_def int_float_or_zero_def ex_float_def
      binary_def trunc_def)

theorem stock_map_last_row_wins_witness:
  "download_supplier_stock ex_env_duplicates ''azuregreen'' None = Inr [''A'' \<mapsto> 0]
   \<and> download_supplier_stock
        (ex_env_duplicates\<lparr>feed_rows :=
           Inr [[''NUMBER'' \<mapsto> Some ''A'', ''UNITS'' \<mapsto> Some ''5''],
                [''NUMBER'' \<mapsto> Some (CHR 0xA0 # ''A ''), ''UNITS'' \<mapsto> Some ''0'']]\<rparr>)
        ''azuregreen'' None = Inr [''A'' \<mapsto> 0]
   \<and> download_supplier_stock
        (ex_env_duplicates\<lparr>feed_rows :=
           Inr [[''NUMBER'' \<mapsto> Some (CHR 0xA0 # ''A ''), ''UNITS'' \<mapsto> Some ''0'']]\<rparr>)
        ''azuregreen'' None = Inr [''A'' \<mapsto> 0]"
proof -
  have rows: "feed_rows ex_env_duplicates =
      Inr [[''NUMBER'' \<mapsto> Some ''A'', ''UNITS'' \<mapsto> Some ''5''],
           [''NUMBER'' \<mapsto> Some [CHR 0xA0, CHR 0x20], ''UNITS'' \<mapsto> Some ''3''],
           [''NUMBER'' \<mapsto> Some (CHR 0xA0 # ''A ''), ''UNITS'' \<mapsto> Some ''0'']]"
    by (simp add: ex_env_duplicates_def)
  have col: "(''azuregreen'' = ''azuregreen'' \<and> ''NUMBER'' = ''NUMBER'')
      \<or> (''azuregreen'' = ''diecast'' \<and> ''NUMBER'' = ''Product ID'')
      \<or> (''azuregreen'' = ''custom''
          \<and> (\<exists>m. None = Some m \<and> m \<noteq> fmempty
                 \<and> ''NUMBER'' = (case fmlookup m ''sku_column'' of None \<Rightarrow> ''SKU'' | Some c \<Rightarrow> c)))"
    by simp
  note t = stock_map_last_row_wins [OF rows col ex_duplicates_download]
  from t have filtered: "download_supplier_stock
        (ex_env_duplicates\<lparr>feed_rows :=
           Inr [[''NUMBER'' \<mapsto> Some ''A'', ''UNITS'' \<mapsto> Some ''5''],
                [''NUMBER'' \<mapsto> Some (CHR 0xA0 # ''A ''), ''UNITS'' \<mapsto> Some ''0'']]\<rparr>)
        ''azuregreen'' None = Inr [''A'' \<mapsto> 0]"
    by (simp add: row_get_def strip_def is_space_def)
  have single: "download_supplier_stock
        (ex_env_duplicates\<lparr>feed_rows :=
           Inr [[''NUMBER'' \<mapsto> Some (CHR 0xA0 # ''A ''), ''UNITS'' \<mapsto> Some ''0'']]\<rparr>)
        ''azuregreen'' None = Inr [''A'' \<mapsto> 0]"
    by (simp add: download_supplier_stock_def ex_env_duplicates_def ex_env_def
        azuregreen_row_def row_get_def cell_strip_def strip_def is_space_def
        int_float_or_zero_def ex_float_def binary_def trunc_def)
  from filtered single show ?thesis
    by (simp add: ex_duplicates_download)
qed

text \<open>
  C6 as stated fails for a \<^verbatim>\<open>custom\<close> feed without a column mapping: two rows share the
  SKU \<^verbatim>\<open>A\<close> and the map holds no entry for it.
\<close>

theorem custom_duplicates_counterexample:
  "feed_rows ex_env_custom =
     Inr [[''SKU'' \<mapsto> Some ''A'', ''Quantity'' \<mapsto> Some ''3''],
          [''SKU'' \<mapsto> Some ''A'', ''Quantity'' \<mapsto> Some ''0'']]
   \<and> (case download_supplier_stock ex_env_custom ''custom'' None of
         Inl x \<Rightarrow> False
       | Inr st \<Rightarrow> st ''A'' = None)"
  by (simp add: download_supplier_stock_def truthy_def ex_env_custom_def)

subsection \<open>One page of listings\<close>

lemma read_items_error: "read_items e its items = Inl x \<Longrightarrow> x = ValueError"
  by (induction its arbitrary: items)
     (auto simp: elem_int_or_zero_def split: if_splits sum.splits xml_elem.splits option.splits)

lemma total_pages_of_error: "total_pages_of e resp = Inl x \<Longrightarrow> x = ValueError \<or> x = TypeError"
  by (auto simp: total_pages_of_def split: option.splits xml_elem.splits)

text \<open>
  C8. For a page whose response arrived and parsed, \<^verbatim>\<open>_fetch_listings_page\<close> raises the
  protocol error exactly when the acknowledgment is neither \<^verbatim>\<open>Success\<close> nor \<^verbatim>\<open>Warning\<close>;
  the error then carries, for each \<^verbatim>\<open>Errors\<close> element in order, its code and its long
  message (its short message when the long one is empty). On \<^verbatim>\<open>Success\<close> or
  \<^verbatim>\<open>Warning\<close> the outcome is that of reading the items and the pagination of the page.
\<close>

theorem fetch_listings_page_ack:
  assumes "seller_list e page = Inr resp"
  shows "((\<exists>msgs. fetch_listings_page e page = Inl (GetSellerListFailed msgs))
            \<longleftrightarrow> (ack resp \<noteq> ''Success'' \<and> ack resp \<noteq> ''Warning''))
       \<and> (ack resp \<noteq> ''Success'' \<and> ack resp \<noteq> ''Warning'' \<longrightarrow>
            fetch_listings_page e page =
              Inl (GetSellerListFailed
                     (map (\<lambda>er. ''['' @ error_code er @ ''] '' @
                                 (if long_message er \<noteq> '''' then long_message er
                                  else short_message er))
                          (errors resp))))
       \<and> (ack resp = ''Success'' \<or> ack resp = ''Warning'' \<longrightarrow>
            fetch_listings_page e page =
              (case read_items e (item_array resp) [] of
                 Inl x \<Rightarrow> Inl x
               | Inr items \<Rightarrow>
                   (case total_pages_of e resp of
                      Inl x \<Rightarrow> Inl x
                    | Inr total_pages \<Rightarrow> Inr (items, total_pages, has_more_of resp))))"
proof -
  have "fetch_listings_page e page \<noteq> Inl (GetSellerListFailed msgs)"
    if "ack resp = ''Success'' \<or> ack resp = ''Warning''" for msgs
    using that assms
    by (auto simp: fetch_listings_page_def split: sum.splits
        dest: read_items_error total_pages_of_error)
  then show ?thesis
    using assms by (auto simp: fetch_listings_page_def error_msg_def cong: map_cong)
qed

theorem fetch_listings_page_ack_witness:
  "fetch_listings_page ex_env_ack_failure 1 =
     Inl (GetSellerListFailed [''[931] Auth token is invalid.'', ''[17] Not allowed''])
   \<and> fetch_listings_page ex_env 1 =
     Inr ([\<lparr>item_id = ''I1'', sku = ''A'', current_qty = 0\<rparr>,
           \<lparr>item_id = ''I2'', sku = ''B'', current_qty = 1\<rparr>], 1, False)"
  using fetch_listings_page_ack [of ex_env_ack_failure 1 ex_failure_page]
    fetch_listings_page_ack [of ex_env 1
      "ex_page [ex_item ''I1'' ''A'' ''0'', ex_item ''I2'' ''B'' ''1''] ''1''"]
  by (simp add: ex_env_ack_failure_def ex_env_def ex_failure_page_def ex_page_def ex_item_def
      elem_int_or_zero_def total_pages_of_def has_more_of_def ex_int_def strip_def is_space_def)

subsection \<open>The listing-fetch loop\<close>

lemma fetch_loop_pages:
  "page \<le> 500 \<Longrightarrow>
   \<exists>k. page \<le> k \<and> k \<le> 500
     \<and> fetch_loop e page all_items requested =
         (requested @ [page..k],
          case fetch_listings_page e k of
            Inl x \<Rightarrow> Inl x
          | Inr res \<Rightarrow> Inr (all_items @ concat (map (page_items e) [page..k])))
     \<and> (\<forall>p \<in> set [page..k - 1]. (\<exists>res. fetch_listings_page e p = Inr res) \<and> \<not> last_page e p)
     \<and> ((\<exists>x. fetch_listings_page e k = Inl x) \<or> last_page e k \<or> k = 500)"
proof (induction e page all_items requested rule: fetch_loop.induct)
  case (1 e page all_items requested)
  show ?case
  proof (cases "fetch_listings_page e page")
    case (Inl x)
    then have "fetch_loop e page all_items requested = (requested @ [page], Inl x)"
      by (subst fetch_loop.simps) simp
    with Inl "1.prems" show ?thesis
      by (intro exI [of _ page]) simp
  next
    case (Inr res)
    have items: "page_items e page = fst res"
      by (simp add: page_items_def Inr)
    show ?thesis
    proof (cases "(page \<ge> fst (snd res) \<and> \<not> snd (snd res)) \<or> page + 1 > 500")
      case True
      then have "fetch_loop e page all_items requested =
          (requested @ [page], Inr (all_items @ fst res))"
        using Inr by (subst fetch_loop.simps) auto
      moreover from True "1.prems" have "last_page e page \<or> page = 500"
        by (auto simp: last_page_def Inr)
      ultimately show ?thesis
        using Inr "1.prems" items by (intro exI [of _ page]) simp
    next
      case False
      then have cont: "\<not> (page \<ge> fst (snd res) \<and> \<not> snd (snd res))" and lt: "\<not> page + 1 > 500"
        by auto
      have step: "fetch_loop e page all_items requested =
          fetch_loop e (page + 1) (all_items @ fst res) (requested @ [page])"
        using Inr cont lt by (subst fetch_loop.simps) auto
      from lt have "page + 1 \<le> 500"
        by simp
      from "1.IH" [OF Inr cont lt this]
      obtain k where k: "page + 1 \<le> k" "k \<le> 500"
        and loop: "fetch_loop e (page + 1) (all_items @ fst res) (requested @ [page]) =
          ((requested @ [page]) @ [page + 1..k],
           case fetch_listings_page e k of
             Inl x \<Rightarrow> Inl x
           | Inr r \<Rightarrow> Inr ((all_items @ fst res) @ concat (map (page_items e) [page + 1..k])))"
        and before: "\<forall>p \<in> set [page + 1..k - 1].
          (\<exists>res. fetch_listings_page e p = Inr res) \<and> \<not> last_page e p"
        and final: "(\<exists>x. fetch_listings_page e k = Inl x) \<or> last_page e k \<or> k = 500"
        by blast
      have upto: "[page..k] = page # [page + 1..k]"
        using k by (simp add: upto_rec1)
      have "\<exists>res. fetch_listings_page e page = Inr res"
        using Inr by (rule exI)
      moreover have "\<not> last_page e page"
        using cont by (simp add: last_page_def Inr)
      ultimately
      have here: "(\<exists>res. fetch_listings_page e page = Inr res) \<and> \<not> last_page e page"
        by (rule conjI)
      have before': "\<forall>p \<in> set [page..k - 1].
          (\<exists>res. fetch_listings_page e p = Inr res) \<and> \<not> last_page e p"
      proof
        fix p assume "p \<in> set [page..k - 1]"
        then have "p = page \<or> p \<in> set [page + 1..k - 1]"
          by auto
        then show "(\<exists>res. fetch_listings_page e p = Inr res) \<and> \<not> last_page e p"
          using here before by blast
      qed
      have "fetch_loop e page all_items requested =
         (requested @ [page..k],
          case fetch_listings_page e k of
            Inl x \<Rightarrow> Inl x
          | Inr r \<Rightarrow> Inr (all_items @ concat (map (page_items e) [page..k])))"
        unfolding step loop upto by (simp add: items split: sum.splits)
      with k before' final show ?thesis
        by (intro exI [of _ k]) simp
    qed
  qed
qed

text \<open>
  C7. The loop ends for every server, having requested the pages 1 to \<open>k\<close> in order, with
  \<open>k\<close> at most 500. Every page before \<open>k\<close> was read without error and did not meet the
  condition of line 132 (the page number has reached the total page count and the has-more
  flag is false). At page \<open>k\<close> either the page fetch raised, which is then the outcome, or
  that condition holds or \<open>k\<close> is 500; in these two cases no error is raised and the
  listings of all the pages requested are returned.
\<close>

theorem fetch_ebay_listings_pages:
  "let ps = pages_requested e; k = int (length ps)
   in ps = [1..k] \<and> 1 \<le> k \<and> k \<le> 500
    \<and> (\<forall>p \<in> set [1..k - 1].
          \<exists>res. fetch_listings_page e p = Inr res \<and> \<not> (p \<ge> fst (snd res) \<and> \<not> snd (snd res)))
    \<and> (case fetch_listings_page e k of
          Inl x \<Rightarrow> fetch_ebay_listings e = Inl x
        | Inr res \<Rightarrow>
            ((k \<ge> fst (snd res) \<and> \<not> snd (snd res)) \<or> k = 500)
            \<and> fetch_ebay_listings e =
                Inr (concat (map (\<lambda>p. case fetch_listings_page e p of
                                         Inl x \<Rightarrow> [] | Inr r \<Rightarrow> fst r) [1..k])))"
proof -
  have "(1::int) \<le> 500"
    by simp
  from fetch_loop_pages [OF this, of e "[]" "[]"]
  obtain k where k: "1 \<le> k" "k \<le> 500"
    and loop': "fetch_loop e 1 [] [] =
      ([] @ [1..k],
       case fetch_listings_page e k of
         Inl x \<Rightarrow> Inl x
       | Inr res \<Rightarrow> Inr ([] @ concat (map (page_items e) [1..k])))"
    and before: "\<forall>p \<in> set [1..k - 1].
      (\<exists>res. fetch_listings_page e p = Inr res) \<and> \<not> last_page e p"
    and final: "(\<exists>x. fetch_listings_page e k = Inl x) \<or> last_page e k \<or> k = 500"
    by blast
  from loop' have loop: "fetch_loop e 1 [] [] =
      ([1..k],
       case fetch_listings_page e k of
         Inl x \<Rightarrow> Inl x
       | Inr res \<Rightarrow> Inr (concat (map (page_items e) [1..k])))"
    by (simp cong: sum.case_cong)
  have ps: "pages_requested e = [1..k]"
    by (simp add: pages_requested_def loop)
  have len: "int (length (pages_requested e)) = k"
    using k by (simp add: ps)
  have c1: "\<forall>p \<in> set [1..k - 1].
      \<exists>res. fetch_listings_page e p = Inr res \<and> \<not> (p \<ge> fst (snd res) \<and> \<not> snd (snd res))"
  proof
    fix p assume "p \<in> set [1..k - 1]"
    with before obtain res where "fetch_listings_page e p = Inr res" and "\<not> last_page e p"
      by blast
    then show "\<exists>res. fetch_listings_page e p = Inr res
        \<and> \<not> (p \<ge> fst (snd res) \<and> \<not> snd (snd res))"
      by (intro exI [of _ res]) (simp add: last_page_def)
  qed
  have c2: "case fetch_listings_page e k of
          Inl x \<Rightarrow> fetch_ebay_listings e = Inl x
        | Inr res \<Rightarrow>
            ((k \<ge> fst (snd res) \<and> \<not> snd (snd res)) \<or> k = 500)
            \<and> fetch_ebay_listings e =
                Inr (concat (map (\<lambda>p. case fetch_listings_page e p of
                                         Inl x \<Rightarrow> [] | Inr r \<Rightarrow> fst r) [1..k]))"
    using final
    by (auto simp: fetch_ebay_listings_def loop last_page_def page_items_def [abs_def]
        split: sum.splits)
  show ?thesis
    unfolding Let_def len using ps k c1 c2 by (intro conjI) assumption+
qed

lemma ex_endless_page:
  "fetch_listings_page ex_env_endless p =
     Inr ([\<lparr>item_id = ''I1'', sku = ''A'', current_qty = 0\<rparr>], 1, True)"
  by (simp add: fetch_listings_page_def ex_env_endless_def ex_env_def ex_page_def ex_item_def
      elem_int_or_zero_def total_pages_of_def has_more_of_def ex_int_def strip_def is_space_def)

lemma ex_two_pages:
  "pages_requested ex_env_two_pages = [1, 2]"
  "fetch_ebay_listings ex_env_two_pages =
     Inr [\<lparr>item_id = ''I1'', sku = ''A'', current_qty = 0\<rparr>,
          \<lparr>item_id = ''I2'', sku = ''B'', current_qty = 1\<rparr>]"
  by code_simp+

theorem fetch_ebay_listings_pages_witness:
  "pages_requested ex_env_two_pages = [1, 2]
   \<and> fetch_ebay_listings ex_env_two_pages =
       Inr [\<lparr>item_id = ''I1'', sku = ''A'', current_qty = 0\<rparr>,
            \<lparr>item_id = ''I2'', sku = ''B'', current_qty = 1\<rparr>]
   \<and> pages_requested ex_env_endless = [1..500]
   \<and> fetch_ebay_listings ex_env_endless =
       Inr (concat (map (\<lambda>p. [\<lparr>item_id = ''I1'', sku = ''A'', current_qty = 0\<rparr>]) [1..500]))"
proof -
  have two: "fetch_listings_page ex_env_two_pages 2 =
      Inr ([\<lparr>item_id = ''I2'', sku = ''B'', current_qty = 1\<rparr>], 2, False)"
    by code_simp
  have "fetch_ebay_listings ex_env_two_pages =
       Inr [\<lparr>item_id = ''I1'', sku = ''A'', current_qty = 0\<rparr>,
            \<lparr>item_id = ''I2'', sku = ''B'', current_qty = 1\<rparr>]"
    using fetch_ebay_listings_pages [of ex_env_two_pages]
    by (simp add: Let_def ex_two_pages)
  moreover have "pages_requested ex_env_endless = [1..500]
     \<and> fetch_ebay_listings ex_env_endless =
       Inr (concat (map (\<lambda>p. [\<lparr>item_id = ''I1'', sku = ''A'', current_qty = 0\<rparr>]) [1..500]))"
  proof -
    note pages = fetch_ebay_listings_pages [of ex_env_endless, unfolded Let_def ex_endless_page]
    from pages have len: "int (length (pages_requested ex_env_endless)) = 500"
      by simp
    from pages show ?thesis
      unfolding len by simp
  qed
  ultimately show ?thesis
    by (simp add: ex_two_pages)
qed

subsection \<open>The diff step\<close>

lemma find_updates_acc:
  "find_updates st ls ups un =
     (ups @ map (\<lambda>l. \<lparr>upd_item_id = item_id l, upd_sku = sku l, old_qty = current_qty l,
                        new_qty = the (st (sku l))\<rparr>)
              (filter (\<lambda>l. sku l \<in> dom st \<and> the (st (sku l)) \<noteq> current_qty l) ls),
      un @ map sku (filter (\<lambda>l. sku l \<notin> dom st) ls))"
  by (induction ls arbitrary: ups un) (auto split: option.splits)

text \<open>
  C1. The diff step yields, in the order of the listings, one update for each listing whose
  SKU is in the stock map with a value other than the listing's current quantity, the new
  quantity being that value; and it records, once each and in order, the SKU of every
  listing whose SKU is not in the stock map, from which no update is made.
\<close>

theorem find_updates_exact:
  "find_updates st ls [] [] =
     (map (\<lambda>l. \<lparr>upd_item_id = item_id l, upd_sku = sku l, old_qty = current_qty l,
                 new_qty = the (st (sku l))\<rparr>)
          (filter (\<lambda>l. sku l \<in> dom st \<and> the (st (sku l)) \<noteq> current_qty l) ls),
      map sku (filter (\<lambda>l. sku l \<notin> dom st) ls))"
  by (simp add: find_updates_acc)

theorem find_updates_exact_witness:
  "find_updates [''S1'' \<mapsto> 0, ''S2'' \<mapsto> 1]
     [\<lparr>item_id = ''I1'', sku = ''S1'', current_qty = 1\<rparr>,
      \<lparr>item_id = ''I2'', sku = ''S2'', current_qty = 1\<rparr>,
      \<lparr>item_id = ''I9'', sku = ''S9'', current_qty = 4\<rparr>] [] [] =
     ([\<lparr>upd_item_id = ''I1'', upd_sku = ''S1'', old_qty = 1, new_qty = 0\<rparr>], [''S9''])"
  using find_updates_exact [of "[''S1'' \<mapsto> 0, ''S2'' \<mapsto> 1]"
      "[\<lparr>item_id = ''I1'', sku = ''S1'', current_qty = 1\<rparr>,
        \<lparr>item_id = ''I2'', sku = ''S2'', current_qty = 1\<rparr>,
        \<lparr>item_id = ''I9'', sku = ''S9'', current_qty = 4\<rparr>]"]
  by simp

subsection \<open>The batched updater\<close>

lemma update_loop_concat:
  "concat sent = take i ups \<Longrightarrow> concat (snd (update_loop e ups i ts tf sent)) = ups"
proof (induction e ups i ts tf sent rule: update_loop.induct)
  case (1 e updates i total_success total_failed sent)
  show ?case
  proof (cases "i < length updates")
    case True
    have inv: "concat (sent @ [take batch_size (drop i updates)]) = take (i + batch_size) updates"
      using "1.prems" by (simp add: take_add)
    show ?thesis
      using True "1.IH"(1) [OF True refl _ inv] "1.IH"(2) [OF True refl _ inv]
      by (subst update_loop.simps) (simp add: Let_def split: sum.splits)
  next
    case False
    then show ?thesis
      using "1.prems" by (subst update_loop.simps) simp
  qed
qed

lemma update_loop_closed:
  "i = batch_size * length sent \<Longrightarrow>
   update_loop e ups i ts tf sent =
     ((ts + (\<Sum>k = length sent..<(length ups + 3) div 4.
               fst (batch_counts e k (take batch_size (drop (batch_size * k) ups)))),
       tf + (\<Sum>k = length sent..<(length ups + 3) div 4.
               snd (batch_counts e k (take batch_size (drop (batch_size * k) ups))))),
      sent @ map (\<lambda>k. take batch_size (drop (batch_size * k) ups))
               [length sent..<(length ups + 3) div 4])"
proof (induction e ups i ts tf sent rule: update_loop.induct)
  case (1 e updates i total_success total_failed sent)
  define n where "n = (length updates + 3) div 4"
  define k where "k = length sent"
  define b where "b = take batch_size (drop i updates)"
  define slice where "slice = (\<lambda>j. take batch_size (drop (batch_size * j) updates))"
  have i: "i = batch_size * k"
    using "1.prems" by (simp add: k_def)
  have b: "b = slice k"
    by (simp add: b_def slice_def i)
  have "update_loop e updates i total_success total_failed sent =
      ((total_success + (\<Sum>k = k..<n. fst (batch_counts e k (slice k))),
        total_failed + (\<Sum>k = k..<n. snd (batch_counts e k (slice k)))),
       sent @ map slice [k..<n])"
  proof (cases "i < length updates")
    case True
    then have lt: "k < n"
      using i by (simp add: batch_size_def n_def)
    have i': "i + batch_size = batch_size * length (sent @ [b])"
      using i by (simp add: k_def)
    have len': "length (sent @ [b]) = Suc k"
      by (simp add: k_def)
    have nonempty: "0 < length b"
      using True by (simp add: batch_size_def b_def)
    have sums:
      "(\<Sum>j = k..<n. f j) = f k + (\<Sum>j = Suc k..<n. f j)" for f :: "nat \<Rightarrow> nat"
      using lt by (rule sum.atLeast_Suc_lessThan)
    have slices: "map slice [k..<n] = b # map slice [Suc k..<n]"
      using lt by (simp add: upt_conv_Cons b)
    show ?thesis
    proof (cases "update_batch e k b")
      case (Inl x)
      then have bc: "batch_counts e k (slice k) = (0, length b)"
        by (auto simp: batch_counts_def update_batch_def b [symmetric] split: sum.splits if_splits)
      have step: "update_loop e updates i total_success total_failed sent =
          update_loop e updates (i + batch_size) total_success (total_failed + length b)
            (sent @ [b])"
        using True Inl by (subst update_loop.simps) (simp add: Let_def b_def k_def)
      have "update_loop e updates (i + batch_size) total_success (total_failed + length b)
            (sent @ [b]) =
          ((total_success + (\<Sum>j = Suc k..<n. fst (batch_counts e j (slice j))),
            total_failed + length b + (\<Sum>j = Suc k..<n. snd (batch_counts e j (slice j)))),
           (sent @ [b]) @ map slice [Suc k..<n])"
        using "1.IH"(1) [OF True b_def [unfolded b_def] _ i' [unfolded b_def]] Inl
        unfolding b_def [symmetric] len' n_def [symmetric] k_def [symmetric]
        by (simp add: slice_def)
      then show ?thesis
        unfolding step sums slices bc by simp
    next
      case (Inr success)
      then have bc: "batch_counts e k (slice k) =
          (success, if success < length b then length b - success else 0)"
        using nonempty
        by (auto simp: batch_counts_def update_batch_def b [symmetric] split: sum.splits if_splits)
      have step: "update_loop e updates i total_success total_failed sent =
          update_loop e updates (i + batch_size) (total_success + success)
            (if success < length b then total_failed + (length b - success) else total_failed)
            (sent @ [b])"
        using True Inr by (subst update_loop.simps) (simp add: Let_def b_def k_def)
      have "update_loop e updates (i + batch_size) (total_success + success)
            (if success < length b then total_failed + (length b - success) else total_failed)
            (sent @ [b]) =
          ((total_success + success + (\<Sum>j = Suc k..<n. fst (batch_counts e j (slice j))),
            (if success < length b then total_failed + (length b - success) else total_failed)
              + (\<Sum>j = Suc k..<n. snd (batch_counts e j (slice j)))),
           (sent @ [b]) @ map slice [Suc k..<n])"
        using "1.IH"(2) [OF True b_def [unfolded b_def] _ i' [unfolded b_def]] Inr
        unfolding b_def [symmetric] len' n_def [symmetric] k_def [symmetric]
        by (simp add: slice_def)
      then show ?thesis
        unfolding step sums slices bc by simp
    qed
  next
    case False
    then have "\<not> k < n"
      using i by (simp add: batch_size_def n_def)
    then show ?thesis
      using False by (subst update_loop.simps) simp
  qed
  then show ?case
    by (simp add: n_def k_def slice_def)
qed

lemma slice_length:
  "k < (length ups + 3) div 4 \<Longrightarrow>
   length (take batch_size (drop (batch_size * k) ups)) = min 4 (length ups - 4 * k)
   \<and> 0 < length ups - 4 * k"
  by (simp add: batch_size_def) linarith

text \<open>
  C3. The batches sent, in order, concatenate to the updates; each has between 1 and 4
  items and all but the last have 4. Each batch adds to the two counters as follows: with
  an accepted acknowledgment (\<^verbatim>\<open>Success\<close> or \<^verbatim>\<open>Warning\<close>), the number of
  \<^verbatim>\<open>InventoryStatus\<close> entries returned to the succeeded count and the shortfall below the
  batch size to the failed count; with an exception or another acknowledgment, nothing to
  the succeeded count and the batch size to the failed count; and every batch is sent
  whatever happened to the ones before. For 9 updates the batch sizes are 4, 4 and 1, and
  when the second request raises, the counters are those of the first and third batches
  plus 4 failed.
\<close>

theorem update_ebay_quantities_batches:
  "let batches = batches_sent e updates;
       counts = (\<lambda>k. case revise e k (batches ! k) of
                    Inl x \<Rightarrow> (0, length (batches ! k))
                  | Inr resp \<Rightarrow>
                      if revise_ack resp = ''Success'' \<or> revise_ack resp = ''Warning''
                      then (inventory_status resp,
                            if inventory_status resp < length (batches ! k)
                            then length (batches ! k) - inventory_status resp else 0)
                      else (0, length (batches ! k)))
   in concat batches = updates
    \<and> (\<forall>b \<in> set batches. 0 < length b \<and> length b \<le> 4)
    \<and> (\<forall>k. Suc k < length batches \<longrightarrow> length (batches ! k) = 4)
    \<and> update_ebay_quantities e updates =
        (\<Sum>k<length batches. fst (counts k), \<Sum>k<length batches. snd (counts k))
    \<and> (length updates = 9 \<longrightarrow>
         map length batches = [4, 4, 1]
         \<and> (\<forall>x. revise e 1 (batches ! 1) = Inl x \<longrightarrow>
              update_ebay_quantities e updates =
                (fst (counts 0) + fst (counts 2), snd (counts 0) + 4 + snd (counts 2))))"
proof -
  define n where "n = (length updates + 3) div 4"
  define slice where "slice = (\<lambda>k. take batch_size (drop (batch_size * k) updates))"
  define batches where "batches = batches_sent e updates"
  define counts where "counts = (\<lambda>k. batch_counts e k (batches ! k))"
  have closed: "update_loop e updates 0 0 0 [] =
      ((\<Sum>k = 0..<n. fst (batch_counts e k (slice k)),
        \<Sum>k = 0..<n. snd (batch_counts e k (slice k))), map slice [0..<n])"
    using update_loop_closed [of 0 "[]" e updates 0 0] by (simp add: n_def slice_def)
  have batches: "batches = map slice [0..<n]"
    by (simp add: batches_def batches_sent_def closed)
  have len: "length batches = n"
    by (simp add: batches)
  have nth: "batches ! k = slice k" if "k < n" for k
    using that by (simp add: batches)
  have slice: "length (slice k) = min 4 (length updates - 4 * k) \<and> 0 < length updates - 4 * k"
    if "k < n" for k
    using that slice_length [of k updates] by (simp add: n_def slice_def)
  have c1: "concat batches = updates"
    using update_loop_concat [of "[]" 0 updates e 0 0]
    by (simp add: batches_def batches_sent_def)
  have c2: "\<forall>b \<in> set batches. 0 < length b \<and> length b \<le> 4"
  proof
    fix b assume "b \<in> set batches"
    then obtain k where "k < n" and "b = slice k"
      by (auto simp: batches)
    then show "0 < length b \<and> length b \<le> 4"
      using slice [of k] by simp
  qed
  have c3: "\<forall>k. Suc k < length batches \<longrightarrow> length (batches ! k) = 4"
  proof (intro allI impI)
    fix k assume k: "Suc k < length batches"
    then have "k < n" and "4 * k + 4 \<le> length updates"
      by (auto simp: len n_def)
    then show "length (batches ! k) = 4"
      using slice [of k] nth [of k] by simp
  qed
  have c4: "update_ebay_quantities e updates =
      (\<Sum>k<length batches. fst (counts k), \<Sum>k<length batches. snd (counts k))"
    by (simp add: update_ebay_quantities_def closed len counts_def nth lessThan_atLeast0)
  have c5: "map length batches = [4, 4, 1]
      \<and> (\<forall>x. revise e 1 (batches ! 1) = Inl x \<longrightarrow>
           update_ebay_quantities e updates =
             (fst (counts 0) + fst (counts 2), snd (counts 0) + 4 + snd (counts 2)))"
    if nine: "length updates = 9"
  proof -
    have n: "n = 3"
      by (simp add: n_def nine)
    have upt: "[0..<n] = [0, 1, 2]"
      by (simp add: n upt_rec)
    have sizes: "map length batches = [4, 4, 1]"
      unfolding batches upt
      using slice [of 0] slice [of 1] slice [of 2] by (simp add: n nine)
    have "update_ebay_quantities e updates =
        (fst (counts 0) + fst (counts 2), snd (counts 0) + 4 + snd (counts 2))"
      if "revise e 1 (batches ! 1) = Inl x" for x
    proof -
      have "length (batches ! 1) = 4"
        using sizes unfolding batches upt by simp
      then have "counts 1 = (0, 4)"
        using that by (simp add: counts_def batch_counts_def)
      moreover have "{..<n} = {0, 1, 2}"
        by (auto simp: n)
      ultimately show ?thesis
        by (simp add: c4 len)
    qed
    with sizes show ?thesis
      by blast
  qed
  from c5 have c5': "length updates = 9 \<longrightarrow>
      map length batches = [4, 4, 1]
      \<and> (\<forall>x. revise e 1 (batches ! 1) = Inl x \<longrightarrow>
           update_ebay_quantities e updates =
             (fst (counts 0) + fst (counts 2), snd (counts 0) + 4 + snd (counts 2)))"
    by (rule impI)
  show ?thesis
    unfolding Let_def batches_def [symmetric]
    using c1 c2 c3 c4 c5'
    unfolding counts_def batch_counts_def
    by (intro conjI) assumption+
qed

lemma ex_batches:
  "batches_sent ex_env_batches (map ex_update [1, 2, 3, 4, 5, 6, 7, 8, 9]) =
     [map ex_update [1, 2, 3, 4], map ex_update [5, 6, 7, 8], map ex_update [9]]"
  by code_simp

theorem update_ebay_quantities_batches_witness:
  "map length (batches_sent ex_env_batches (map ex_update [1, 2, 3, 4, 5, 6, 7, 8, 9])) = [4, 4, 1]
   \<and> update_ebay_quantities ex_env_batches (map ex_update [1, 2, 3, 4, 5, 6, 7, 8, 9]) = (4, 5)"
  using update_ebay_quantities_batches
    [of ex_env_batches "map ex_update [1, 2, 3, 4, 5, 6, 7, 8, 9]"]
  unfolding Let_def ex_batches
  by (simp add: ex_env_batches_def)

subsection \<open>The result of a run\<close>

lemma update_ebay_quantities_Nil: "update_ebay_quantities e [] = (0, 0)"
  by (simp add: update_ebay_quantities_def update_loop.simps)

lemma ex_download:
  "download_supplier_stock ex_env ''azuregreen'' None = Inr [''A'' \<mapsto> 1, ''B'' \<mapsto> 0]"
  by (simp add: download_supplier_stock_def ex_env_def azuregreen_row_def row_get_def
      cell_strip_def strip_def is_space_def int_float_or_zero_def ex_float_def binary_def
      trunc_def)

lemma ex_fetch:
  "fetch_ebay_listings ex_env =
     Inr [\<lparr>item_id = ''I1'', sku = ''A'', current_qty = 0\<rparr>,
          \<lparr>item_id = ''I2'', sku = ''B'', current_qty = 1\<rparr>]"
  by code_simp

text \<open>
  C9. When the normalizer returns a stock map and the fetcher returns the listings, the
  result is \<^verbatim>\<open>completed\<close>: the listings checked are the fetched listings, the updated and
  failed counts are the two counters of the updater on the updates of the diff step, the
  out-of-stock count is the number of those updates with new quantity 0, the unmatched count
  is the number of unmatched SKUs of the diff step, and there is no error message.
\<close>

theorem run_sync_completed:
  assumes "download_supplier_stock e feed_type cm = Inr supplier_stock"
    and "fetch_ebay_listings e = Inr ebay_listings"
  shows "run_sync e feed_type cm =
     \<lparr>status = ''completed'',
      total_listings_checked = length ebay_listings,
      items_updated =
        fst (update_ebay_quantities e (fst (find_updates supplier_stock ebay_listings [] []))),
      items_failed =
        snd (update_ebay_quantities e (fst (find_updates supplier_stock ebay_listings [] []))),
      items_out_of_stock =
        length (filter (\<lambda>u. new_qty u = 0)
                  (fst (find_updates supplier_stock ebay_listings [] []))),
      unmatched_skus = length (snd (find_updates supplier_stock ebay_listings [] [])),
      error_message = None\<rparr>"
  using assms by (simp add: run_sync_def Let_def update_ebay_quantities_Nil)

theorem run_sync_completed_witness:
  "run_sync ex_env ''azuregreen'' None =
     \<lparr>status = ''completed'', total_listings_checked = 2, items_updated = 2, items_failed = 0,
      items_out_of_stock = 1, unmatched_skus = 0, error_message = None\<rparr>"
  using run_sync_completed [OF ex_download ex_fetch]
  by (simp add: update_ebay_quantities_def update_loop.simps batch_size_def update_batch_def
      ex_env_def)

lemma ex_feed_down: "download_supplier_stock ex_env_feed_down ''azuregreen'' None = Inl (RequestError ''404 Client Error'')"
  by (simp add: download_supplier_stock_def ex_env_feed_down_def)

lemma ex_ack_failure_download:
  "download_supplier_stock ex_env_ack_failure ''azuregreen'' None = Inr [''A'' \<mapsto> 1, ''B'' \<mapsto> 0]"
  by (simp add: download_supplier_stock_def ex_env_ack_failure_def ex_env_def azuregreen_row_def
      row_get_def cell_strip_def strip_def is_space_def int_float_or_zero_def ex_float_def
      binary_def trunc_def)

lemma ex_ack_failure_fetch:
  "fetch_ebay_listings ex_env_ack_failure =
     Inl (GetSellerListFailed [''[931] Auth token is invalid.'', ''[17] Not allowed''])"
  by code_simp

text \<open>
  C2. \<open>run_sync\<close> returns a result for every input: its body runs under the handler
  \<^verbatim>\<open>except Exception\<close>, and the diff and update steps raise nothing. When the normalizer
  raises \<open>x\<close>, or the normalizer returns and the fetcher raises \<open>x\<close>, the result has status
  \<^verbatim>\<open>failed\<close>, its five counts are 0 and its error message is that of \<open>x\<close>.
\<close>

theorem run_sync_failed:
  assumes "download_supplier_stock e feed_type cm = Inl x
           \<or> (\<exists>st. download_supplier_stock e feed_type cm = Inr st) \<and> fetch_ebay_listings e = Inl x"
  shows "run_sync e feed_type cm =
     \<lparr>status = ''failed'', total_listings_checked = 0, items_updated = 0, items_failed = 0,
      items_out_of_stock = 0, unmatched_skus = 0, error_message = Some x\<rparr>"
  using assms by (auto simp: run_sync_def sync_failed_def)

theorem run_sync_failed_witness:
  "run_sync ex_env_feed_down ''azuregreen'' None =
     \<lparr>status = ''failed'', total_listings_checked = 0, items_updated = 0, items_failed = 0,
      items_out_of_stock = 0, unmatched_skus = 0,
      error_message = Some (RequestError ''404 Client Error'')\<rparr>
   \<and> run_sync ex_env_ack_failure ''azuregreen'' None =
     \<lparr>status = ''failed'', total_listings_checked = 0, items_updated = 0, items_failed = 0,
      items_out_of_stock = 0, unmatched_skus = 0,
      error_message =
        Some (GetSellerListFailed [''[931] Auth token is invalid.'', ''[17] Not allowed''])\<rparr>"
  using run_sync_failed [of ex_env_feed_down "''azuregreen''" None "RequestError ''404 Client Error''"]
    run_sync_failed [of ex_env_ack_failure "''azuregreen''" None
      "GetSellerListFailed [''[931] Auth token is invalid.'', ''[17] Not allowed'']"]
  by (simp add: ex_feed_down ex_ack_failure_download ex_ack_failure_fetch)

lemma find_updates_empty_stock: "find_updates Map.empty ls ups un = (ups, un @ map sku ls)"
  by (induction ls arbitrary: un) auto

text \<open>
  C10. Once the feed download succeeds, a feed type other than \<^verbatim>\<open>azuregreen\<close>,
  \<^verbatim>\<open>diecast\<close> and \<^verbatim>\<open>custom\<close>, and also \<^verbatim>\<open>custom\<close> with the column mapping missing
  or empty, gives the empty stock map and no error; if the fetcher then returns the
  listings, the run is \<^verbatim>\<open>completed\<close> with no update and every listing unmatched.
\<close>

theorem unknown_feed_type_completes:
  assumes "feed_rows e = Inr rows"
    and "(feed_type \<noteq> ''azuregreen'' \<and> feed_type \<noteq> ''diecast'' \<and> feed_type \<noteq> ''custom'')
         \<or> (feed_type = ''custom'' \<and> (cm = None \<or> cm = Some fmempty))"
  shows "download_supplier_stock e feed_type cm = Inr Map.empty
       \<and> (fetch_ebay_listings e = Inr ebay_listings \<longrightarrow>
            run_sync e feed_type cm =
              \<lparr>status = ''completed'', total_listings_checked = length ebay_listings,
               items_updated = 0, items_failed = 0, items_out_of_stock = 0,
               unmatched_skus = length ebay_listings, error_message = None\<rparr>)"
proof -
  have d: "download_supplier_stock e feed_type cm = Inr Map.empty"
    using assms by (auto simp: download_supplier_stock_def truthy_def)
  then show ?thesis
    by (simp add: run_sync_def Let_def find_updates_empty_stock)
qed

theorem unknown_feed_type_completes_witness:
  "download_supplier_stock ex_env ''azuregren'' None = Inr Map.empty
   \<and> run_sync ex_env ''azuregren'' None =
       \<lparr>status = ''completed'', total_listings_checked = 2, items_updated = 0, items_failed = 0,
        items_out_of_stock = 0, unmatched_skus = 2, error_message = None\<rparr>
   \<and> run_sync ex_env ''custom'' (Some fmempty) =
       \<lparr>status = ''completed'', total_listings_checked = 2, items_updated = 0, items_failed = 0,
        items_out_of_stock = 0, unmatched_skus = 2, error_message = None\<rparr>"
proof -
  have rows: "feed_rows ex_env =
      Inr [[''NUMBER'' \<mapsto> Some ''A'', ''UNITS'' \<mapsto> Some ''1''],
           [''NUMBER'' \<mapsto> Some ''B'', ''UNITS'' \<mapsto> Some ''0'']]"
    by (simp add: ex_env_def)
  show ?thesis
    using unknown_feed_type_completes [OF rows, of "''azuregren''" None]
      unknown_feed_type_completes [OF rows, of "''custom''" "Some fmempty"]
    by (simp add: ex_fetch)
qed

end
